theory Spec2Isabelle
  imports Main "HOL-Library.Word"
begin

section \<open>The synchronous facade of include/internal/sync\_api.hpp\<close>

text \<open>
  The file declares six overloads of the function template \<open>compute\<close> and seven named
  aliases. Every overload is one expression: it calls one of two launch primitives
  (\<open>internal::hash_with_data_copy\<close> or \<open>internal::dispatch_hash\<close>) and then
  \<open>wait()\<close> on the event that call returned. The primitives and \<open>sycl::event::wait\<close>
  are declared elsewhere; they are parameters of the model (a record of collaborators),
  and every call the facade makes to them is recorded, with its actual arguments, in a
  log that the theorems read.
\<close>

subsection \<open>Types the file uses\<close>

text \<open>
  Modelled from the spec: the enumeration \<open>hash::method\<close> is declared in common.hpp, which
  is not part of the sources at hand. Its members are the seven tags the spec lists, all of them named
  in sync\_api.hpp itself (in the \<open>enable_if\<close> conditions and in the alias list).
\<close>

datatype hash_method = md2 | md5 | sha1 | sha256 | sha3 | keccak | blake2b

text \<open>
  \<open>byte\<close> and \<open>dword\<close> are typedefs of a header outside this file, taken as the 8-bit
  and the 32-bit unsigned integer (the facade does no arithmetic on them). A raw pointer is an address, \<open>nullptr\<close> the address 0.
  \<open>device_accessible_ptr<byte>\<close> is a class wrapping an address; a \<open>sycl::queue&\<close> is
  the identity of a queue. The template argument \<open>int n_outbit\<close> is an \<open>int\<close>.
\<close>

type_synonym byte = "8 word"
type_synonym dword = "32 word"
type_synonym byte_ptr = nat
type_synonym queue = nat

definition nullptr :: byte_ptr where
  "nullptr = 0"

datatype device_accessible_ptr = Device_accessible_ptr nat

text \<open>
  A \<open>sycl::event\<close>: the default-constructed event \<open>sycl::event{}\<close>, or the event of a
  submission.
\<close>

datatype event = Default_event | Event nat

text \<open>A C++ exception object thrown by a collaborator.\<close>

datatype exn = Exn nat

text \<open>
  Modelled from the spec: the first parameter of \<open>hash_with_data_copy\<close> is an aggregate whose
  declaration is not in this file; the facade builds it as \<open>{q, in, out, n_batch, inlen}\<close>. Its
  fields are, in this order, what the spec's external interface lists for the host-resident
  launch primitive: queue, input pointer, output pointer, batch count, block length.
\<close>

record runner =
  r_q :: queue
  r_indata :: byte_ptr
  r_outdata :: byte_ptr
  r_n_batch :: dword
  r_inlen :: dword

text \<open>
  The object \<open>hash_with_data_copy\<close> returns; the facade reads only its member
  \<open>dev_e_\<close> (written \<open>dev_e\<close> here).
\<close>

record handle_item =
  dev_e :: event

subsection \<open>Collaborators, effects and the log of calls\<close>

text \<open>
  A collaborator takes the world (memories, the device, whatever it needs) and returns
  a value or throws, together with the world it leaves behind.
\<close>

type_synonym ('w, 'a) outcome = "(exn + 'a) \<times> 'w"

record 'w collaborators =
  c_hash_with_data_copy ::
    "hash_method \<Rightarrow> int \<Rightarrow> runner \<Rightarrow> byte_ptr \<Rightarrow> dword \<Rightarrow> 'w \<Rightarrow> ('w, handle_item) outcome"
  c_dispatch_hash ::
    "hash_method \<Rightarrow> int \<Rightarrow> queue \<Rightarrow> event \<Rightarrow> device_accessible_ptr \<Rightarrow> device_accessible_ptr \<Rightarrow>
     dword \<Rightarrow> dword \<Rightarrow> byte_ptr \<Rightarrow> dword \<Rightarrow> 'w \<Rightarrow> ('w, event) outcome"
  c_wait :: "event \<Rightarrow> 'w \<Rightarrow> ('w, unit) outcome"

text \<open>One entry of the log per call the facade makes, with the arguments it passed.\<close>

datatype ext_call =
    Hash_with_data_copy hash_method int runner byte_ptr dword
  | Dispatch_hash hash_method int queue event device_accessible_ptr device_accessible_ptr
      dword dword byte_ptr dword
  | Wait event

type_synonym 'w state = "'w \<times> ext_call list"

type_synonym ('w, 'a) eff = "'w state \<Rightarrow> ('w state, 'a) outcome"

text \<open>
  Sequencing of two effects. An exception thrown by the first ends the expression: the
  facade has no \<open>try\<close> block, so the exception leaves \<open>compute\<close> as it is.
\<close>

definition bind_eff :: "('w, 'a) eff \<Rightarrow> ('a \<Rightarrow> ('w, 'b) eff) \<Rightarrow> ('w, 'b) eff" where
  "bind_eff m f s =
     (case m s of
        (Inl e, s') \<Rightarrow> (Inl e, s')
      | (Inr a, s') \<Rightarrow> f a s')"

definition hash_with_data_copy ::
  "'w collaborators \<Rightarrow> hash_method \<Rightarrow> int \<Rightarrow> runner \<Rightarrow> byte_ptr \<Rightarrow> dword \<Rightarrow> ('w, handle_item) eff" where
  "hash_with_data_copy P M n_outbit v key keylen s =
     (case c_hash_with_data_copy P M n_outbit v key keylen (fst s) of
        (r, w') \<Rightarrow> (r, (w', snd s @ [Hash_with_data_copy M n_outbit v key keylen])))"

definition dispatch_hash ::
  "'w collaborators \<Rightarrow> hash_method \<Rightarrow> int \<Rightarrow> queue \<Rightarrow> event \<Rightarrow> device_accessible_ptr \<Rightarrow>
   device_accessible_ptr \<Rightarrow> dword \<Rightarrow> dword \<Rightarrow> byte_ptr \<Rightarrow> dword \<Rightarrow> ('w, event) eff" where
  "dispatch_hash P M n_outbit q e indata outdata inlen n_batch key keylen s =
     (case c_dispatch_hash P M n_outbit q e indata outdata inlen n_batch key keylen (fst s) of
        (r, w') \<Rightarrow>
          (r, (w', snd s @ [Dispatch_hash M n_outbit q e indata outdata inlen n_batch key keylen])))"

definition wait :: "'w collaborators \<Rightarrow> event \<Rightarrow> ('w, unit) eff" where
  "wait P e s =
     (case c_wait P e (fst s) of
        (r, w') \<Rightarrow> (r, (w', snd s @ [Wait e])))"

subsection \<open>The six overloads of compute\<close>

text \<open>Lines 26-29: host pointers, no \<open>n_outbit\<close>, no key.\<close>

definition compute_host ::
  "'w collaborators \<Rightarrow> hash_method \<Rightarrow> queue \<Rightarrow> byte_ptr \<Rightarrow> dword \<Rightarrow> byte_ptr \<Rightarrow> dword \<Rightarrow> ('w, unit) eff" where
  "compute_host P M q indata inlen outdata n_batch =
     bind_eff
       (hash_with_data_copy P M 0
          \<lparr>r_q = q, r_indata = indata, r_outdata = outdata, r_n_batch = n_batch, r_inlen = inlen\<rparr>
          nullptr 0)
       (\<lambda>h. wait P (dev_e h))"

text \<open>Lines 41-44: host pointers, \<open>n_outbit\<close>, no key.\<close>

definition compute_host_outbit ::
  "'w collaborators \<Rightarrow> hash_method \<Rightarrow> int \<Rightarrow> queue \<Rightarrow> byte_ptr \<Rightarrow> dword \<Rightarrow> byte_ptr \<Rightarrow> dword \<Rightarrow>
   ('w, unit) eff" where
  "compute_host_outbit P M n_outbit q indata inlen outdata n_batch =
     bind_eff
       (hash_with_data_copy P M n_outbit
          \<lparr>r_q = q, r_indata = indata, r_outdata = outdata, r_n_batch = n_batch, r_inlen = inlen\<rparr>
          nullptr 0)
       (\<lambda>h. wait P (dev_e h))"

text \<open>Lines 56-59: host pointers, \<open>n_outbit\<close>, key and key length.\<close>

definition compute_host_keyed ::
  "'w collaborators \<Rightarrow> hash_method \<Rightarrow> int \<Rightarrow> queue \<Rightarrow> byte_ptr \<Rightarrow> dword \<Rightarrow> byte_ptr \<Rightarrow> dword \<Rightarrow>
   byte_ptr \<Rightarrow> dword \<Rightarrow> ('w, unit) eff" where
  "compute_host_keyed P M n_outbit q indata inlen outdata n_batch key keylen =
     bind_eff
       (hash_with_data_copy P M n_outbit
          \<lparr>r_q = q, r_indata = indata, r_outdata = outdata, r_n_batch = n_batch, r_inlen = inlen\<rparr>
          key keylen)
       (\<lambda>h. wait P (dev_e h))"

text \<open>Lines 73-76: device pointers, no \<open>n_outbit\<close>, no key.\<close>

definition compute_device ::
  "'w collaborators \<Rightarrow> hash_method \<Rightarrow> queue \<Rightarrow> device_accessible_ptr \<Rightarrow> dword \<Rightarrow>
   device_accessible_ptr \<Rightarrow> dword \<Rightarrow> ('w, unit) eff" where
  "compute_device P M q indata inlen outdata n_batch =
     bind_eff
       (dispatch_hash P M 0 q Default_event indata outdata inlen n_batch nullptr 0)
       (\<lambda>e. wait P e)"

text \<open>Lines 91-94: device pointers, \<open>n_outbit\<close>, no key.\<close>

definition compute_device_outbit ::
  "'w collaborators \<Rightarrow> hash_method \<Rightarrow> int \<Rightarrow> queue \<Rightarrow> device_accessible_ptr \<Rightarrow> dword \<Rightarrow>
   device_accessible_ptr \<Rightarrow> dword \<Rightarrow> ('w, unit) eff" where
  "compute_device_outbit P M n_outbit q indata inlen outdata n_batch =
     bind_eff
       (dispatch_hash P M n_outbit q Default_event indata outdata inlen n_batch nullptr 0)
       (\<lambda>e. wait P e)"

text \<open>Lines 109-112: device pointers, \<open>n_outbit\<close>, key and key length.\<close>

definition compute_device_keyed ::
  "'w collaborators \<Rightarrow> hash_method \<Rightarrow> int \<Rightarrow> queue \<Rightarrow> device_accessible_ptr \<Rightarrow> dword \<Rightarrow>
   device_accessible_ptr \<Rightarrow> dword \<Rightarrow> byte_ptr \<Rightarrow> dword \<Rightarrow> ('w, unit) eff" where
  "compute_device_keyed P M n_outbit q indata inlen outdata n_batch key keylen =
     bind_eff
       (dispatch_hash P M n_outbit q Default_event indata outdata inlen n_batch key keylen)
       (\<lambda>e. wait P e)"

subsection \<open>Overload resolution\<close>

text \<open>
  A call \<open>compute<M, ...>(...)\<close> names the tag, may go on with further explicit template
  arguments, and passes five arguments or seven. An explicit template argument is an
  integer constant expression (its value is kept, whatever its type) or a type.
\<close>

datatype targ = Int_arg int | Type_arg

text \<open>The values of \<open>int\<close>, the type of the template parameter \<open>n_outbit\<close> (32 bits).\<close>

definition int_range :: "int \<Rightarrow> bool" where
  "int_range n = (- (2 ^ 31) \<le> n \<and> n < 2 ^ 31)"

text \<open>
  Both buffers are raw pointers or both are \<open>device_accessible_ptr\<close>; no conversion
  between the two pointer kinds is modelled, their class being declared outside this
  file. The queue, the buffers and the lengths are expressions of the parameters' types.
  The key argument, when there is one, is an expression of type \<open>byte *\<close>, of type
  \<open>const byte *\<close>, the literal \<open>nullptr\<close>, a literal zero (\<open>0\<close> or \<open>NULL\<close>, a null
  pointer constant), or an expression of type \<open>int\<close> that is not a literal.
\<close>

datatype key_arg = Key_ptr byte_ptr | Const_key_ptr byte_ptr | Nullptr_literal | Zero_literal | Int_value

text \<open>The pointer a key argument becomes once converted to the parameter's type.\<close>

fun key_address :: "key_arg \<Rightarrow> byte_ptr" where
  "key_address (Key_ptr p) = p"
| "key_address (Const_key_ptr p) = p"
| "key_address Nullptr_literal = nullptr"
| "key_address Zero_literal = nullptr"
| "key_address Int_value = nullptr"

datatype residency = Host | Device

datatype buffers =
    Host_ptrs byte_ptr byte_ptr
  | Device_ptrs device_accessible_ptr device_accessible_ptr

record arguments =
  a_q :: queue
  a_bufs :: buffers
  a_inlen :: dword
  a_n_batch :: dword
  a_key :: "(key_arg \<times> dword) option"

fun residency_of :: "buffers \<Rightarrow> residency" where
  "residency_of (Host_ptrs _ _) = Host"
| "residency_of (Device_ptrs _ _) = Device"

text \<open>The six declarations, in the order of the file.\<close>

datatype overload =
    Host_fixed | Host_outbit | Host_keyed
  | Device_fixed | Device_outbit | Device_keyed

definition overloads :: "overload list" where
  "overloads = [Host_fixed, Host_outbit, Host_keyed, Device_fixed, Device_outbit, Device_keyed]"

text \<open>Whether the template header declares \<open>int n_outbit\<close>.\<close>

fun has_n_outbit :: "overload \<Rightarrow> bool" where
  "has_n_outbit Host_fixed = False"
| "has_n_outbit Host_outbit = True"
| "has_n_outbit Host_keyed = True"
| "has_n_outbit Device_fixed = False"
| "has_n_outbit Device_outbit = True"
| "has_n_outbit Device_keyed = True"

text \<open>
  The condition of the \<open>std::enable_if_t\<close> that is the default argument of the header's
  last, unnamed type parameter.
\<close>

fun enable_if :: "overload \<Rightarrow> hash_method \<Rightarrow> bool" where
  "enable_if Host_fixed M = (M \<noteq> keccak \<and> M \<noteq> sha3 \<and> M \<noteq> blake2b)"
| "enable_if Host_outbit M = (M = keccak \<or> M = sha3)"
| "enable_if Host_keyed M = (M = blake2b)"
| "enable_if Device_fixed M = (M \<noteq> keccak \<and> M \<noteq> sha3 \<and> M \<noteq> blake2b)"
| "enable_if Device_outbit M = (M = keccak \<or> M = sha3)"
| "enable_if Device_keyed M = (M = blake2b)"

text \<open>The type of the parameters \<open>in\<close>/\<open>indata\<close> and \<open>out\<close>/\<open>outdata\<close>.\<close>

fun pointer_kind :: "overload \<Rightarrow> residency" where
  "pointer_kind Host_fixed = Host"
| "pointer_kind Host_outbit = Host"
| "pointer_kind Host_keyed = Host"
| "pointer_kind Device_fixed = Device"
| "pointer_kind Device_outbit = Device"
| "pointer_kind Device_keyed = Device"

text \<open>Whether the parameter list ends with \<open>key, keylen\<close>.\<close>

fun has_key :: "overload \<Rightarrow> bool" where
  "has_key Host_fixed = False"
| "has_key Host_outbit = False"
| "has_key Host_keyed = True"
| "has_key Device_fixed = False"
| "has_key Device_outbit = False"
| "has_key Device_keyed = True"

text \<open>
  Whether the key parameter points to \<open>const\<close>: line 57 declares \<open>byte *key\<close>, line 110
  \<open>const byte *key\<close>.
\<close>

fun key_is_const :: "overload \<Rightarrow> bool" where
  "key_is_const Host_keyed = False"
| "key_is_const Device_keyed = True"
| "key_is_const _ = False"

text \<open>
  The explicit template arguments against a header. In \<open>template<method M, typename = E>\<close>
  nothing more may follow the tag, and then the default \<open>E\<close> is instantiated and the
  condition must hold; or one type follows, which replaces the default, so that the
  condition is never looked at. In \<open>template<method M, int n_outbit, typename = E>\<close> the
  integer must follow (it has no default and cannot be deduced) and must be a value of
  \<open>int\<close>; again a type after it replaces the default.
\<close>

definition template_ok :: "overload \<Rightarrow> hash_method \<Rightarrow> targ list \<Rightarrow> bool" where
  "template_ok ov M targs =
     (if has_n_outbit ov then
        (case targs of
           [Int_arg n] \<Rightarrow> int_range n \<and> enable_if ov M
         | [Int_arg n, Type_arg] \<Rightarrow> int_range n
         | _ \<Rightarrow> False)
      else
        (case targs of
           [] \<Rightarrow> enable_if ov M
         | [Type_arg] \<Rightarrow> True
         | _ \<Rightarrow> False))"

text \<open>
  Whether a key argument converts to the key parameter: a pointer to \<open>const\<close> only to a
  parameter that points to \<open>const\<close>, a null pointer constant to either, an \<open>int\<close> that is
  not a literal to neither.
\<close>

fun converts_to_key :: "bool \<Rightarrow> key_arg \<Rightarrow> bool" where
  "converts_to_key const_param (Key_ptr _) = True"
| "converts_to_key const_param (Const_key_ptr _) = const_param"
| "converts_to_key const_param Nullptr_literal = True"
| "converts_to_key const_param Zero_literal = True"
| "converts_to_key const_param Int_value = False"

definition key_ok :: "overload \<Rightarrow> (key_arg \<times> dword) option \<Rightarrow> bool" where
  "key_ok ov key =
     (case key of
        None \<Rightarrow> \<not> has_key ov
      | Some (k, keylen) \<Rightarrow> has_key ov \<and> converts_to_key (key_is_const ov) k)"

text \<open>
  An overload is a candidate for a call when the explicit template arguments fit its
  header and the arguments fit its parameter list.
\<close>

definition viable ::
  "overload \<Rightarrow> hash_method \<Rightarrow> targ list \<Rightarrow> residency \<Rightarrow> (key_arg \<times> dword) option \<Rightarrow> bool" where
  "viable ov M targs res key = (template_ok ov M targs \<and> pointer_kind ov = res \<and> key_ok ov key)"

definition resolve :: "hash_method \<Rightarrow> targ list \<Rightarrow> arguments \<Rightarrow> overload list" where
  "resolve M targs args =
     filter (\<lambda>ov. viable ov M targs (residency_of (a_bufs args)) (a_key args)) overloads"

text \<open>
  The six declarations differ pairwise in whether the header has \<open>n_outbit\<close>, in the
  pointer kind or in the presence of the key parameters, so at most one can be a
  candidate: the one with the call's shape.
\<close>

definition has_width :: "targ list \<Rightarrow> bool" where
  "has_width targs = (case targs of Int_arg n # _ \<Rightarrow> True | _ \<Rightarrow> False)"

definition shape_overload :: "targ list \<Rightarrow> residency \<Rightarrow> (key_arg \<times> dword) option \<Rightarrow> overload" where
  "shape_overload targs res key =
     (case res of
        Host \<Rightarrow>
          (if key \<noteq> None then Host_keyed else if has_width targs then Host_outbit else Host_fixed)
      | Device \<Rightarrow>
          (if key \<noteq> None then Device_keyed
           else if has_width targs then Device_outbit else Device_fixed))"

text \<open>The body of the selected overload, applied to the call's arguments.\<close>

definition invoke ::
  "'w collaborators \<Rightarrow> overload \<Rightarrow> hash_method \<Rightarrow> targ list \<Rightarrow> queue \<Rightarrow> buffers \<Rightarrow> dword \<Rightarrow> dword \<Rightarrow>
   (key_arg \<times> dword) option \<Rightarrow> ('w, unit) eff option" where
  "invoke P ov M targs q bufs inlen n_batch key =
     (case (ov, targs, bufs, key) of
        (Host_fixed, _, Host_ptrs indata outdata, None) \<Rightarrow>
          Some (compute_host P M q indata inlen outdata n_batch)
      | (Host_outbit, Int_arg n # _, Host_ptrs indata outdata, None) \<Rightarrow>
          Some (compute_host_outbit P M n q indata inlen outdata n_batch)
      | (Host_keyed, Int_arg n # _, Host_ptrs indata outdata, Some (k, keylen)) \<Rightarrow>
          Some (compute_host_keyed P M n q indata inlen outdata n_batch (key_address k) keylen)
      | (Device_fixed, _, Device_ptrs indata outdata, None) \<Rightarrow>
          Some (compute_device P M q indata inlen outdata n_batch)
      | (Device_outbit, Int_arg n # _, Device_ptrs indata outdata, None) \<Rightarrow>
          Some (compute_device_outbit P M n q indata inlen outdata n_batch)
      | (Device_keyed, Int_arg n # _, Device_ptrs indata outdata, Some (k, keylen)) \<Rightarrow>
          Some (compute_device_keyed P M n q indata inlen outdata n_batch (key_address k) keylen)
      | _ \<Rightarrow> None)"

text \<open>
  A call of \<open>compute\<close>: \<open>None\<close> when the call does not compile (no candidate, or more
  than one), otherwise the effect of the one overload selected.
\<close>

definition compute ::
  "'w collaborators \<Rightarrow> hash_method \<Rightarrow> targ list \<Rightarrow> arguments \<Rightarrow> ('w, unit) eff option" where
  "compute P M targs args =
     (case resolve M targs args of
        [ov] \<Rightarrow>
          invoke P ov M targs (a_q args) (a_bufs args) (a_inlen args) (a_n_batch args)
            (a_key args)
      | _ \<Rightarrow> None)"

text \<open>
  The four shapes of the matrix: (integer template argument given, key arguments given),
  with no type among the template arguments. A shape is tried with a width that is a
  value of \<open>int\<close> and a key of type \<open>byte *\<close>.
\<close>

definition call_shapes :: "(bool \<times> bool) list" where
  "call_shapes = [(False, False), (False, True), (True, False), (True, True)]"

definition shape_targs :: "bool \<Rightarrow> targ list" where
  "shape_targs with_outbit = (if with_outbit then [Int_arg 0] else [])"

definition shape_key :: "bool \<Rightarrow> (key_arg \<times> dword) option" where
  "shape_key with_key = (if with_key then Some (Key_ptr 0, 0) else None)"

text \<open>Every pair of a call shape and an overload that is a candidate for it.\<close>

definition resolutions :: "hash_method \<Rightarrow> residency \<Rightarrow> ((bool \<times> bool) \<times> overload) list" where
  "resolutions M res =
     concat
       (map (\<lambda>sh. map (\<lambda>ov. (sh, ov))
               (filter (\<lambda>ov. viable ov M (shape_targs (fst sh)) res (shape_key (snd sh))) overloads))
          call_shapes)"

text \<open>
  The legal matrix in the spec's words: a fixed-digest tag takes no output width and no
  key, \<open>sha3\<close> and \<open>keccak\<close> take an output width and no key, \<open>blake2b\<close> takes an
  output width and a key.
\<close>

definition width_only :: "targ list \<Rightarrow> bool" where
  "width_only targs = (case targs of [Int_arg n] \<Rightarrow> True | _ \<Rightarrow> False)"

definition spec_legal_call :: "hash_method \<Rightarrow> targ list \<Rightarrow> arguments \<Rightarrow> bool" where
  "spec_legal_call M targs args =
     (if M = md2 \<or> M = md5 \<or> M = sha1 \<or> M = sha256 then targs = [] \<and> a_key args = None
      else if M = sha3 \<or> M = keccak then width_only targs \<and> a_key args = None
      else width_only targs \<and> a_key args \<noteq> None)"

text \<open>A call that does not spell out the defaulted type parameter.\<close>

definition no_type_argument :: "targ list \<Rightarrow> bool" where
  "no_type_argument targs = list_all (\<lambda>t. t \<noteq> Type_arg) targs"

text \<open>The width given is a value of \<open>int\<close>.\<close>

definition width_fits :: "targ list \<Rightarrow> bool" where
  "width_fits targs = (case targs of [Int_arg n] \<Rightarrow> int_range n | _ \<Rightarrow> True)"

text \<open>
  The key given converts to the key parameter of the call's residency (\<open>byte *\<close> on host
  buffers, \<open>const byte *\<close> on device buffers).
\<close>

definition key_fits :: "arguments \<Rightarrow> bool" where
  "key_fits args =
     (case a_key args of
        None \<Rightarrow> True
      | Some (k, keylen) \<Rightarrow> converts_to_key (residency_of (a_bufs args) = Device) k)"

subsection \<open>The aliases\<close>














subsection \<open>Reading the log\<close>

text \<open>What a logged call passed to its collaborator.\<close>

fun is_wait :: "ext_call \<Rightarrow> bool" where
  "is_wait (Wait _) = True"
| "is_wait _ = False"

fun is_hash_with_data_copy :: "ext_call \<Rightarrow> bool" where
  "is_hash_with_data_copy (Hash_with_data_copy _ _ _ _ _) = True"
| "is_hash_with_data_copy _ = False"

fun is_dispatch_hash :: "ext_call \<Rightarrow> bool" where
  "is_dispatch_hash (Dispatch_hash _ _ _ _ _ _ _ _ _ _) = True"
| "is_dispatch_hash _ = False"

fun call_n_outbit :: "ext_call \<Rightarrow> int option" where
  "call_n_outbit (Hash_with_data_copy _ n _ _ _) = Some n"
| "call_n_outbit (Dispatch_hash _ n _ _ _ _ _ _ _ _) = Some n"
| "call_n_outbit (Wait _) = None"

fun call_buffers :: "ext_call \<Rightarrow> buffers option" where
  "call_buffers (Hash_with_data_copy _ _ v _ _) = Some (Host_ptrs (r_indata v) (r_outdata v))"
| "call_buffers (Dispatch_hash _ _ _ _ indata outdata _ _ _ _) = Some (Device_ptrs indata outdata)"
| "call_buffers (Wait _) = None"

fun call_inlen :: "ext_call \<Rightarrow> dword option" where
  "call_inlen (Hash_with_data_copy _ _ v _ _) = Some (r_inlen v)"
| "call_inlen (Dispatch_hash _ _ _ _ _ _ inlen _ _ _) = Some inlen"
| "call_inlen (Wait _) = None"

fun call_n_batch :: "ext_call \<Rightarrow> dword option" where
  "call_n_batch (Hash_with_data_copy _ _ v _ _) = Some (r_n_batch v)"
| "call_n_batch (Dispatch_hash _ _ _ _ _ _ _ n_batch _ _) = Some n_batch"
| "call_n_batch (Wait _) = None"

fun call_key :: "ext_call \<Rightarrow> (byte_ptr \<times> dword) option" where
  "call_key (Hash_with_data_copy _ _ _ key keylen) = Some (key, keylen)"
| "call_key (Dispatch_hash _ _ _ _ _ _ _ _ key keylen) = Some (key, keylen)"
| "call_key (Wait _) = None"

fun call_dependency :: "ext_call \<Rightarrow> event option" where
  "call_dependency (Dispatch_hash _ _ _ e _ _ _ _ _ _) = Some e"
| "call_dependency _ = None"

text \<open>
  What the collaborator answers to a logged launch in a world: the exception it throws,
  or the event the facade goes on to wait on (for \<open>hash_with_data_copy\<close> the member
  \<open>dev_e_\<close> of the object returned).
\<close>

fun returned :: "'w collaborators \<Rightarrow> ext_call \<Rightarrow> 'w \<Rightarrow> ('w, event) outcome" where
  "returned P (Hash_with_data_copy M n v key keylen) w =
     (case c_hash_with_data_copy P M n v key keylen w of
        (Inl e, w') \<Rightarrow> (Inl e, w')
      | (Inr h, w') \<Rightarrow> (Inr (dev_e h), w'))"
| "returned P (Dispatch_hash M n q e indata outdata inlen n_batch key keylen) w =
     c_dispatch_hash P M n q e indata outdata inlen n_batch key keylen w"
| "returned P (Wait e) w =
     (case c_wait P e w of
        (Inl x, w') \<Rightarrow> (Inl x, w')
      | (Inr _, w') \<Rightarrow> (Inr e, w'))"

text \<open>
  The shape every body has: one launch, then one \<open>wait\<close> on the event it returned;
  an exception of the launch ends the call before the \<open>wait\<close>.
\<close>

definition launch_then_wait :: "'w collaborators \<Rightarrow> ext_call \<Rightarrow> ('w, unit) eff" where
  "launch_then_wait P D s =
     (case returned P D (fst s) of
        (Inl e, w1) \<Rightarrow> (Inl e, (w1, snd s @ [D]))
      | (Inr h, w1) \<Rightarrow>
          (case c_wait P h w1 of (r, w2) \<Rightarrow> (r, (w2, snd s @ [D, Wait h]))))"

text \<open>The launch of a call that compiles, read off the six bodies.\<close>

definition launch_width :: "targ list \<Rightarrow> int" where
  "launch_width targs = (case targs of Int_arg n # _ \<Rightarrow> n | _ \<Rightarrow> 0)"

definition launch_key :: "(key_arg \<times> dword) option \<Rightarrow> byte_ptr \<times> dword" where
  "launch_key key = (case key of None \<Rightarrow> (nullptr, 0) | Some (k, keylen) \<Rightarrow> (key_address k, keylen))"

definition launch_of :: "hash_method \<Rightarrow> targ list \<Rightarrow> arguments \<Rightarrow> ext_call" where
  "launch_of M targs args =
     (case a_bufs args of
        Host_ptrs indata outdata \<Rightarrow>
          Hash_with_data_copy M (launch_width targs)
            \<lparr>r_q = a_q args, r_indata = indata, r_outdata = outdata,
             r_n_batch = a_n_batch args, r_inlen = a_inlen args\<rparr>
            (fst (launch_key (a_key args))) (snd (launch_key (a_key args)))
      | Device_ptrs indata outdata \<Rightarrow>
          Dispatch_hash M (launch_width targs) (a_q args) Default_event
            indata outdata (a_inlen args) (a_n_batch args)
            (fst (launch_key (a_key args))) (snd (launch_key (a_key args))))"

section \<open>An environment for the collaborators\<close>

text \<open>
  Modelled from the spec: \<open>internal::hash_with_data_copy\<close>, \<open>internal::dispatch_hash\<close> and
  the hash kernels are defined in files that are not among the sources at hand; \<open>sycl::event::wait\<close>
  belongs to the SYCL runtime. The spec describes them: the device-resident primitive
  launches the kernel of the tag on buffers the device can access and returns a
  completion handle; the host-resident primitive stages the input into device-visible
  memory, launches the same kernel and stages the output back before it signals
  completion; a batch is a contiguous run of equal-length blocks, hashed to one digest
  per block; a launch on an invalid queue fails; the effects of a call are guaranteed
  once the wait on its handle has returned.

  The digest of one block is a parameter \<open>H\<close> (tag, output width, key bytes, block). The
  device executes submitted work in submission order, and not before a wait asks for it.
\<close>

definition read_bytes :: "(nat \<Rightarrow> byte) \<Rightarrow> nat \<Rightarrow> nat \<Rightarrow> byte list" where
  "read_bytes mem p n = map (\<lambda>i. mem (p + i)) [0..<n]"

definition write_bytes :: "(nat \<Rightarrow> byte) \<Rightarrow> nat \<Rightarrow> byte list \<Rightarrow> (nat \<Rightarrow> byte)" where
  "write_bytes mem p bs = (\<lambda>a. if p \<le> a \<and> a < p + length bs then bs ! (a - p) else mem a)"

definition blocks :: "byte list \<Rightarrow> nat \<Rightarrow> nat \<Rightarrow> byte list list" where
  "blocks data inlen n_batch = map (\<lambda>i. take inlen (drop (i * inlen) data)) [0..<n_batch]"

type_synonym digest_fn = "hash_method \<Rightarrow> int \<Rightarrow> byte list \<Rightarrow> byte list \<Rightarrow> byte list"

definition hash_kernel ::
  "digest_fn \<Rightarrow> hash_method \<Rightarrow> int \<Rightarrow> byte list \<Rightarrow> byte list \<Rightarrow> nat \<Rightarrow> nat \<Rightarrow> byte list" where
  "hash_kernel H M n_outbit key data inlen n_batch =
     concat (map (H M n_outbit key) (blocks data inlen n_batch))"

text \<open>Submitted work: a staged launch on host buffers, or a launch on device buffers.\<close>

datatype job =
    Staged_hash hash_method int nat nat nat nat "byte list"
  | Device_hash hash_method int nat nat nat nat "byte list"

record world =
  host_mem :: "nat \<Rightarrow> byte"
  device_mem :: "nat \<Rightarrow> byte"
  queues :: "queue list"
  pending :: "(nat \<times> job) list"
  next_event :: nat

fun run_job :: "digest_fn \<Rightarrow> job \<Rightarrow> world \<Rightarrow> world" where
  "run_job H (Staged_hash M n indata outdata inlen n_batch key) w =
     (let staged_in = read_bytes (host_mem w) indata (n_batch * inlen);
          staged_out = hash_kernel H M n key staged_in inlen n_batch
      in w\<lparr>host_mem := write_bytes (host_mem w) outdata staged_out\<rparr>)"
| "run_job H (Device_hash M n indata outdata inlen n_batch key) w =
     w\<lparr>device_mem :=
         write_bytes (device_mem w) outdata
           (hash_kernel H M n key (read_bytes (device_mem w) indata (n_batch * inlen)) inlen n_batch)\<rparr>"

definition submit :: "job \<Rightarrow> world \<Rightarrow> world" where
  "submit j w = w\<lparr>pending := pending w @ [(next_event w, j)], next_event := Suc (next_event w)\<rparr>"

definition env_hash_with_data_copy ::
  "hash_method \<Rightarrow> int \<Rightarrow> runner \<Rightarrow> byte_ptr \<Rightarrow> dword \<Rightarrow> world \<Rightarrow> (world, handle_item) outcome" where
  "env_hash_with_data_copy M n v key keylen w =
     (if r_q v \<in> set (queues w) then
        (Inr \<lparr>dev_e = Event (next_event w)\<rparr>,
         submit (Staged_hash M n (r_indata v) (r_outdata v) (unat (r_inlen v)) (unat (r_n_batch v))
                   (read_bytes (host_mem w) key (unat keylen))) w)
      else (Inl (Exn 0), w))"

fun env_dispatch_hash ::
  "hash_method \<Rightarrow> int \<Rightarrow> queue \<Rightarrow> event \<Rightarrow> device_accessible_ptr \<Rightarrow> device_accessible_ptr \<Rightarrow>
   dword \<Rightarrow> dword \<Rightarrow> byte_ptr \<Rightarrow> dword \<Rightarrow> world \<Rightarrow> (world, event) outcome" where
  "env_dispatch_hash M n q e (Device_accessible_ptr indata) (Device_accessible_ptr outdata)
     inlen n_batch key keylen w =
     (if q \<in> set (queues w) then
        (Inr (Event (next_event w)),
         submit (Device_hash M n indata outdata (unat inlen) (unat n_batch)
                   (read_bytes (host_mem w) key (unat keylen))) w)
      else (Inl (Exn 0), w))"

text \<open>
  \<open>wait\<close> on a submitted event runs the pending work up to and including that event,
  oldest first; on the default event there is nothing to wait for.
\<close>

fun env_wait :: "digest_fn \<Rightarrow> event \<Rightarrow> world \<Rightarrow> (world, unit) outcome" where
  "env_wait H Default_event w = (Inr (), w)"
| "env_wait H (Event k) w =
     (Inr (),
      fold (run_job H) (map snd (filter (\<lambda>p. fst p \<le> k) (pending w)))
        (w\<lparr>pending := filter (\<lambda>p. \<not> fst p \<le> k) (pending w)\<rparr>))"

definition env :: "digest_fn \<Rightarrow> world collaborators" where
  "env H =
     \<lparr>c_hash_with_data_copy = env_hash_with_data_copy,
      c_dispatch_hash = env_dispatch_hash,
      c_wait = env_wait H\<rparr>"

text \<open>An event is complete when none of its work is pending.\<close>

fun complete :: "world \<Rightarrow> event \<Rightarrow> bool" where
  "complete w Default_event = True"
| "complete w (Event k) = (k \<notin> set (map fst (pending w)))"

text \<open>The bytes of the input and of the output buffer of a call, in the memory they live in.\<close>

fun input_of :: "world \<Rightarrow> buffers \<Rightarrow> nat \<Rightarrow> byte list" where
  "input_of w (Host_ptrs indata outdata) n = read_bytes (host_mem w) indata n"
| "input_of w (Device_ptrs (Device_accessible_ptr indata) outdata) n =
     read_bytes (device_mem w) indata n"

fun output_of :: "world \<Rightarrow> buffers \<Rightarrow> nat \<Rightarrow> byte list" where
  "output_of w (Host_ptrs indata outdata) n = read_bytes (host_mem w) outdata n"
| "output_of w (Device_ptrs indata (Device_accessible_ptr outdata)) n =
     read_bytes (device_mem w) outdata n"

text \<open>The key bytes a call passes: none when it has no key arguments.\<close>

definition key_bytes :: "world \<Rightarrow> (key_arg \<times> dword) option \<Rightarrow> byte list" where
  "key_bytes w key =
     (case key of
        None \<Rightarrow> read_bytes (host_mem w) nullptr 0
      | Some (k, len) \<Rightarrow> read_bytes (host_mem w) (key_address k) (unat len))"

text \<open>Two address ranges that share no address.\<close>

definition disjoint :: "nat \<Rightarrow> nat \<Rightarrow> nat \<Rightarrow> nat \<Rightarrow> bool" where
  "disjoint p n p' n' = (p + n \<le> p' \<or> p' + n' \<le> p)"

text \<open>A toy digest for the examples: the length of the block, then its first byte or 0.\<close>

definition toy_digest :: digest_fn where
  "toy_digest M n key blk =
     [of_nat (length blk), (case blk of [] \<Rightarrow> 0 | b # _ \<Rightarrow> b)]"

definition toy_world :: world where
  "toy_world =
     \<lparr>host_mem = (\<lambda>a. of_nat a), device_mem = (\<lambda>a. of_nat a), queues = [0],
      pending = [], next_event = 0\<rparr>"

text \<open>The addresses of the input and of the output buffer of a call.\<close>

fun in_ptr :: "buffers \<Rightarrow> nat" where
  "in_ptr (Host_ptrs indata outdata) = indata"
| "in_ptr (Device_ptrs (Device_accessible_ptr indata) outdata) = indata"

fun out_ptr :: "buffers \<Rightarrow> nat" where
  "out_ptr (Host_ptrs indata outdata) = outdata"
| "out_ptr (Device_ptrs indata (Device_accessible_ptr outdata)) = outdata"

text \<open>
  The key bytes are read from host memory: an output buffer in host memory must not
  overlap them if a later call is to see the same key.
\<close>

definition key_untouched :: "buffers \<Rightarrow> nat \<Rightarrow> (key_arg \<times> dword) option \<Rightarrow> bool" where
  "key_untouched b len key =
     (case (b, key) of
        (Host_ptrs indata outdata, Some (k, keylen)) \<Rightarrow>
          disjoint outdata len (key_address k) (unat keylen)
      | _ \<Rightarrow> True)"

text \<open>Calls used as examples.\<close>

definition host_args :: arguments where
  "host_args = \<lparr>a_q = 0, a_bufs = Host_ptrs 16 64, a_inlen = 3, a_n_batch = 2, a_key = None\<rparr>"

definition device_args :: arguments where
  "device_args =
     \<lparr>a_q = 0, a_bufs = Device_ptrs (Device_accessible_ptr 16) (Device_accessible_ptr 64),
      a_inlen = 3, a_n_batch = 2, a_key = None\<rparr>"

definition keyed_args :: arguments where
  "keyed_args = \<lparr>a_q = 0, a_bufs = Host_ptrs 16 64, a_inlen = 3, a_n_batch = 2, a_key = Some (Key_ptr 8, 4)\<rparr>"

definition bad_queue_args :: arguments where
  "bad_queue_args = \<lparr>a_q = 5, a_bufs = Host_ptrs 16 64, a_inlen = 3, a_n_batch = 2, a_key = None\<rparr>"


section \<open>Overload resolution\<close>

lemma viable_shape:
  assumes "viable ov M targs res key"
  shows "ov = shape_overload targs res key"
  using assms
  by (cases ov)
     (auto simp: viable_def template_ok_def key_ok_def shape_overload_def has_width_def
        split: list.splits targ.splits option.splits if_splits)

lemma filter_unique:
  assumes "\<And>y. P y \<Longrightarrow> y = x" and "distinct xs" and "x \<in> set xs"
  shows "filter P xs = (if P x then [x] else [])"
  using assms
proof (induction xs)
  case Nil
  then show ?case by simp
next
  case (Cons a xs)
  show ?case
  proof (cases "a = x")
    case True
    with Cons.prems have "filter P xs = []"
      by (auto simp: filter_empty_conv)
    with True show ?thesis by simp
  next
    case False
    with Cons.prems have "\<not> P a" by auto
    with False Cons show ?thesis by simp
  qed
qed

lemma shape_overload_listed: "shape_overload targs res key \<in> set overloads"
  by (cases res) (simp_all add: shape_overload_def overloads_def)

lemma resolve_eq:
  "resolve M targs args =
     (if viable (shape_overload targs (residency_of (a_bufs args)) (a_key args)) M targs
           (residency_of (a_bufs args)) (a_key args)
      then [shape_overload targs (residency_of (a_bufs args)) (a_key args)] else [])"
  unfolding resolve_def
  by (rule filter_unique) (simp_all add: viable_shape shape_overload_listed, simp add: overloads_def)

section \<open>What a call that compiles does\<close>

lemma hash_with_data_copy_then_wait:
  "bind_eff (hash_with_data_copy P M n v key keylen) (\<lambda>h. wait P (dev_e h)) =
   launch_then_wait P (Hash_with_data_copy M n v key keylen)"
  by (rule ext)
     (simp add: bind_eff_def hash_with_data_copy_def wait_def launch_then_wait_def
        split: prod.splits sum.splits)

lemma dispatch_hash_then_wait:
  "bind_eff (dispatch_hash P M n q e indata outdata inlen n_batch key keylen) (\<lambda>e. wait P e) =
   launch_then_wait P (Dispatch_hash M n q e indata outdata inlen n_batch key keylen)"
  by (rule ext)
     (simp add: bind_eff_def dispatch_hash_def wait_def launch_then_wait_def
        split: prod.splits sum.splits)

lemmas overload_bodies =
  compute_host_def compute_host_outbit_def compute_host_keyed_def
  compute_device_def compute_device_outbit_def compute_device_keyed_def

lemma invoke_viable:
  assumes "viable ov M targs (residency_of (a_bufs args)) (a_key args)"
  shows "invoke P ov M targs (a_q args) (a_bufs args) (a_inlen args) (a_n_batch args) (a_key args) =
         Some (launch_then_wait P (launch_of M targs args))"
  using assms
  by (cases ov; cases "a_bufs args")
     (auto simp: viable_def template_ok_def key_ok_def invoke_def launch_of_def launch_width_def
        launch_key_def overload_bodies hash_with_data_copy_then_wait dispatch_hash_then_wait
        split: list.splits targ.splits option.splits if_splits)

lemma compute_cases:
  "compute P M targs args =
     (if resolve M targs args = [] then None
      else Some (launch_then_wait P (launch_of M targs args)))"
  by (simp add: compute_def resolve_eq invoke_viable)

lemma compute_SomeD:
  assumes "compute P M targs args = Some f"
  shows "resolve M targs args \<noteq> []" and "f = launch_then_wait P (launch_of M targs args)"
  using assms by (auto simp: compute_cases split: if_splits)

section \<open>The legal matrix\<close>

lemma template_ok_simps:
  "template_ok ov M [] = (\<not> has_n_outbit ov \<and> enable_if ov M)"
  "template_ok ov M [Int_arg n] = (has_n_outbit ov \<and> int_range n \<and> enable_if ov M)"
  "template_ok ov M [Type_arg] = (\<not> has_n_outbit ov)"
  "template_ok ov M [Int_arg n, Type_arg] = (has_n_outbit ov \<and> int_range n)"
  by (simp_all add: template_ok_def)

lemma template_ok_other:
  assumes "targs \<noteq> []" and "\<forall>n. targs \<noteq> [Int_arg n]" and "targs \<noteq> [Type_arg]"
    and "\<forall>n. targs \<noteq> [Int_arg n, Type_arg]"
  shows "\<not> template_ok ov M targs"
proof (cases targs rule: remdups_adj.cases)
  case 1
  with assms show ?thesis by simp
next
  case (2 t)
  with assms show ?thesis by (cases t) (simp_all add: template_ok_def)
next
  case (3 t u ts)
  with assms show ?thesis
    by (cases t; cases u; cases ts) (simp_all add: template_ok_def)
qed

lemma width_only_iff: "width_only targs = (\<exists>n. targs = [Int_arg n])"
  by (auto simp: width_only_def split: list.splits targ.splits)

lemma no_type_argument_simps:
  "no_type_argument []" "no_type_argument [Int_arg n]" "\<not> no_type_argument [Type_arg]"
  "\<not> no_type_argument [Int_arg n, Type_arg]"
  by (simp_all add: no_type_argument_def)

lemma resolve_legal:
  assumes "no_type_argument targs"
  shows "(resolve M targs args \<noteq> []) =
         (spec_legal_call M targs args \<and> width_fits targs \<and> key_fits args)"
proof -
  let ?res = "residency_of (a_bufs args)"
  let ?ov = "shape_overload targs ?res (a_key args)"
  consider (none) "targs = []" | (width) n where "targs = [Int_arg n]"
    | (other) "targs \<noteq> []" "\<forall>n. targs \<noteq> [Int_arg n]"
    by blast
  then show ?thesis
  proof cases
    case none
    then show ?thesis
      by (cases M; cases ?res; cases "a_key args")
         (auto simp: resolve_eq viable_def template_ok_simps key_ok_def shape_overload_def
            has_width_def spec_legal_call_def width_only_iff width_fits_def key_fits_def)
  next
    case width
    then show ?thesis
      by (cases M; cases ?res; cases "a_key args")
         (auto simp: resolve_eq viable_def template_ok_simps key_ok_def shape_overload_def
            has_width_def spec_legal_call_def width_only_iff width_fits_def key_fits_def)
  next
    case other
    from assms have "targs \<noteq> [Type_arg]" and "\<forall>n. targs \<noteq> [Int_arg n, Type_arg]"
      by (auto simp: no_type_argument_simps)
    with other have "\<not> template_ok ?ov M targs"
      by (intro template_ok_other)
    then have "resolve M targs args = []"
      by (simp add: resolve_eq viable_def)
    moreover from other have "\<not> spec_legal_call M targs args"
      by (simp add: spec_legal_call_def width_only_iff)
    ultimately show ?thesis by simp
  qed
qed

lemma launch_width_simps [simp]:
  "launch_width [] = 0" "launch_width (Int_arg n # ts) = n" "launch_width (Type_arg # ts) = 0"
  by (simp_all add: launch_width_def)

lemma launch_of_not_wait: "\<not> is_wait (launch_of M targs args)"
  by (cases "a_bufs args") (simp_all add: launch_of_def)

lemma launch_then_wait_log:
  assumes "launch_then_wait P D (w, tr) = (r, (w', tr'))"
  shows "case returned P D w of
           (Inl e, w1) \<Rightarrow> tr' = tr @ [D] \<and> r = Inl e \<and> w' = w1
         | (Inr h, w1) \<Rightarrow> tr' = tr @ [D, Wait h] \<and> c_wait P h w1 = (r, w')"
  using assms by (auto simp: launch_then_wait_def split: prod.splits sum.splits)

lemma compute_run:
  assumes "compute P M targs args = Some f" and "f (w, tr) = (r, (w', tr'))"
  shows "\<exists>rest. tr' = tr @ launch_of M targs args # rest \<and> list_all is_wait rest \<and>
           (case returned P (launch_of M targs args) w of
              (Inl e, w1) \<Rightarrow> rest = [] \<and> r = Inl e \<and> w' = w1
            | (Inr h, w1) \<Rightarrow> rest = [Wait h] \<and> c_wait P h w1 = (r, w'))"
proof -
  from assms(1) have "f = launch_then_wait P (launch_of M targs args)"
    by (rule compute_SomeD)
  with assms(2) have "case returned P (launch_of M targs args) w of
           (Inl e, w1) \<Rightarrow> tr' = tr @ [launch_of M targs args] \<and> r = Inl e \<and> w' = w1
         | (Inr h, w1) \<Rightarrow>
             tr' = tr @ [launch_of M targs args, Wait h] \<and> c_wait P h w1 = (r, w')"
    by (intro launch_then_wait_log) simp
  then show ?thesis
    by (auto split: prod.splits sum.splits)
qed



lemma compute_fixed_width:
  assumes "M = md2 \<or> M = md5 \<or> M = sha1 \<or> M = sha256"
  shows "compute P M [Int_arg n] args = None"
  using assms resolve_legal [of "[Int_arg n]" M args]
  by (auto simp: compute_cases no_type_argument_simps spec_legal_call_def)

lemma compute_variable_no_width:
  assumes "M = sha3 \<or> M = blake2b \<or> M = keccak"
  shows "compute P M [] args = None"
  using assms resolve_legal [of "[]" M args]
  by (auto simp: compute_cases no_type_argument_simps spec_legal_call_def width_only_iff)



section \<open>The environment\<close>

lemma pending_run_job [simp]: "pending (run_job H j w) = pending w"
  by (cases j) (simp_all add: Let_def)

lemma pending_fold_run_job [simp]: "pending (fold (run_job H) js w) = pending w"
  by (induction js arbitrary: w) simp_all

lemma env_wait_complete:
  assumes "c_wait (env H) e w = (Inr (), w')"
  shows "complete w' e"
proof (cases e)
  case Default_event
  then show ?thesis by simp
next
  case (Event k)
  with assms have "pending w' = filter (\<lambda>p. \<not> fst p \<le> k) (pending w)"
    by (auto simp: env_def)
  with Event show ?thesis by auto
qed

lemma env_wait_blocks:
  "\<forall>e w w'. c_wait (env H) e w = (Inr (), w') \<longrightarrow> complete w' e"
  using env_wait_complete by blast

lemma toy_world_fields [simp]:
  "queues toy_world = [0]" "pending toy_world = []" "next_event toy_world = 0"
  by (simp_all add: toy_world_def)

lemma compute_md5_host_args:
  "compute (env toy_digest) md5 [] host_args =
   Some (compute_host (env toy_digest) md5 0 16 3 64 2)"
  by (simp add: compute_def resolve_def overloads_def viable_def template_ok_def key_ok_def
      int_range_def invoke_def host_args_def)

lemma run_md5_host_args:
  "compute_host (env toy_digest) md5 0 16 3 64 2 (toy_world, []) =
   (Inr (),
    (snd (env_wait toy_digest (Event 0) (submit (Staged_hash md5 0 16 64 3 2 []) toy_world)),
     [Hash_with_data_copy md5 0
        \<lparr>r_q = 0, r_indata = 16, r_outdata = 64, r_n_batch = 2, r_inlen = 3\<rparr> nullptr 0,
      Wait (Event 0)]))"
  by (simp add: compute_host_def bind_eff_def hash_with_data_copy_def wait_def env_def
      env_hash_with_data_copy_def read_bytes_def)

lemma compute_md5_device_args:
  "compute (env toy_digest) md5 [] device_args =
   Some (compute_device (env toy_digest) md5 0 (Device_accessible_ptr 16) 3 (Device_accessible_ptr 64) 2)"
  by (simp add: compute_def resolve_def overloads_def viable_def template_ok_def key_ok_def
      int_range_def invoke_def device_args_def)

lemma run_md5_device_args:
  "compute_device (env toy_digest) md5 0 (Device_accessible_ptr 16) 3 (Device_accessible_ptr 64) 2
     (toy_world, []) =
   (Inr (),
    (snd (env_wait toy_digest (Event 0) (submit (Device_hash md5 0 16 64 3 2 []) toy_world)),
     [Dispatch_hash md5 0 0 Default_event (Device_accessible_ptr 16) (Device_accessible_ptr 64)
        3 2 nullptr 0,
      Wait (Event 0)]))"
  by (simp add: compute_device_def bind_eff_def dispatch_hash_def wait_def env_def read_bytes_def)

lemma compute_blake2b_keyed_args:
  "compute (env toy_digest) blake2b [Int_arg 512] keyed_args =
   Some (compute_host_keyed (env toy_digest) blake2b 512 0 16 3 64 2 8 4)"
  by (simp add: compute_def resolve_def overloads_def viable_def template_ok_def key_ok_def
      int_range_def invoke_def keyed_args_def)

lemma run_blake2b_keyed_args:
  "compute_host_keyed (env toy_digest) blake2b 512 0 16 3 64 2 8 4 (toy_world, []) =
   (Inr (),
    (snd (env_wait toy_digest (Event 0)
       (submit (Staged_hash blake2b 512 16 64 3 2 (read_bytes (host_mem toy_world) 8 4)) toy_world)),
     [Hash_with_data_copy blake2b 512
        \<lparr>r_q = 0, r_indata = 16, r_outdata = 64, r_n_batch = 2, r_inlen = 3\<rparr> 8 4,
      Wait (Event 0)]))"
  by (simp add: compute_host_keyed_def bind_eff_def hash_with_data_copy_def wait_def env_def
      env_hash_with_data_copy_def)

lemma compute_md5_bad_queue_args:
  "compute (env toy_digest) md5 [] bad_queue_args =
   Some (compute_host (env toy_digest) md5 5 16 3 64 2)"
  by (simp add: compute_def resolve_def overloads_def viable_def template_ok_def key_ok_def
      int_range_def invoke_def bad_queue_args_def)

lemma run_md5_bad_queue_args:
  "compute_host (env toy_digest) md5 5 16 3 64 2 (toy_world, []) =
   (Inl (Exn 0),
    (toy_world,
     [Hash_with_data_copy md5 0
        \<lparr>r_q = 5, r_indata = 16, r_outdata = 64, r_n_batch = 2, r_inlen = 3\<rparr> nullptr 0]))"
  by (simp add: compute_host_def bind_eff_def hash_with_data_copy_def wait_def env_def
      env_hash_with_data_copy_def)

lemma length_read_bytes [simp]: "length (read_bytes mem p n) = n"
  by (simp add: read_bytes_def)

lemma read_bytes_0 [simp]: "read_bytes mem p 0 = []"
  by (simp add: read_bytes_def)

lemma read_write_same: "read_bytes (write_bytes mem p bs) p (length bs) = bs"
  by (rule nth_equalityI) (simp_all add: read_bytes_def write_bytes_def)

lemma read_write_disjoint:
  assumes "disjoint p (length bs) q n"
  shows "read_bytes (write_bytes mem p bs) q n = read_bytes mem q n"
  using assms by (auto simp: read_bytes_def write_bytes_def disjoint_def)

lemma disjoint_sym: "disjoint p n q m \<Longrightarrow> disjoint q m p n"
  by (auto simp: disjoint_def)

lemma launch_keys:
  "read_bytes (host_mem w) (fst (launch_key key)) (unat (snd (launch_key key))) = key_bytes w key"
  by (cases key) (auto simp: key_bytes_def launch_key_def)

lemma env_run_host:
  assumes "q \<in> set (queues w)" and "pending w = []"
  shows "\<exists>w'. launch_then_wait (env H)
           (Hash_with_data_copy M n
              \<lparr>r_q = q, r_indata = indata, r_outdata = outdata, r_n_batch = n_batch,
               r_inlen = inlen\<rparr> key keylen) (w, tr) =
           (Inr (), (w', tr @ [Hash_with_data_copy M n
              \<lparr>r_q = q, r_indata = indata, r_outdata = outdata, r_n_batch = n_batch,
               r_inlen = inlen\<rparr> key keylen, Wait (Event (next_event w))])) \<and>
         host_mem w' =
           write_bytes (host_mem w) outdata
             (hash_kernel H M n (read_bytes (host_mem w) key (unat keylen))
                (read_bytes (host_mem w) indata (unat n_batch * unat inlen))
                (unat inlen) (unat n_batch)) \<and>
         device_mem w' = device_mem w \<and> queues w' = queues w \<and> pending w' = []"
  using assms
  by (simp add: launch_then_wait_def env_def env_hash_with_data_copy_def submit_def Let_def)

lemma env_run_device:
  assumes "q \<in> set (queues w)" and "pending w = []"
  shows "\<exists>w'. launch_then_wait (env H)
           (Dispatch_hash M n q e (Device_accessible_ptr indata) (Device_accessible_ptr outdata)
              inlen n_batch key keylen) (w, tr) =
           (Inr (), (w', tr @ [Dispatch_hash M n q e (Device_accessible_ptr indata)
              (Device_accessible_ptr outdata) inlen n_batch key keylen,
              Wait (Event (next_event w))])) \<and>
         device_mem w' =
           write_bytes (device_mem w) outdata
             (hash_kernel H M n (read_bytes (host_mem w) key (unat keylen))
                (read_bytes (device_mem w) indata (unat n_batch * unat inlen))
                (unat inlen) (unat n_batch)) \<and>
         host_mem w' = host_mem w \<and> queues w' = queues w \<and> pending w' = []"
  using assms
  by (simp add: launch_then_wait_def env_def submit_def)

text \<open>One call in the environment, on either kind of buffers.\<close>

lemma env_run:
  assumes compiles: "compute (env H) M targs args = Some f"
    and queue: "a_q args \<in> set (queues w)" and idle: "pending w = []"
  shows "\<exists>w' tr'. f (w, tr) = (Inr (), (w', tr')) \<and>
           output_of w' (a_bufs args)
             (length (hash_kernel H M (launch_width targs)
                (key_bytes w (a_key args))
                (input_of w (a_bufs args) (unat (a_n_batch args) * unat (a_inlen args)))
                (unat (a_inlen args)) (unat (a_n_batch args)))) =
           hash_kernel H M (launch_width targs)
             (key_bytes w (a_key args))
             (input_of w (a_bufs args) (unat (a_n_batch args) * unat (a_inlen args)))
             (unat (a_inlen args)) (unat (a_n_batch args)) \<and>
           host_mem w' =
             (if residency_of (a_bufs args) = Host then
                write_bytes (host_mem w) (out_ptr (a_bufs args))
                  (hash_kernel H M (launch_width targs)
                     (key_bytes w (a_key args))
                     (input_of w (a_bufs args) (unat (a_n_batch args) * unat (a_inlen args)))
                     (unat (a_inlen args)) (unat (a_n_batch args)))
              else host_mem w) \<and>
           device_mem w' =
             (if residency_of (a_bufs args) = Device then
                write_bytes (device_mem w) (out_ptr (a_bufs args))
                  (hash_kernel H M (launch_width targs)
                     (key_bytes w (a_key args))
                     (input_of w (a_bufs args) (unat (a_n_batch args) * unat (a_inlen args)))
                     (unat (a_inlen args)) (unat (a_n_batch args)))
              else device_mem w) \<and>
           queues w' = queues w \<and> pending w' = []"
proof -
  from compiles have f: "f = launch_then_wait (env H) (launch_of M targs args)"
    by (rule compute_SomeD)
  show ?thesis
  proof (cases "a_bufs args")
    case (Host_ptrs indata outdata)
    from env_run_host [OF queue idle, of H M "launch_width targs"
        indata outdata "a_n_batch args" "a_inlen args"
        "fst (launch_key (a_key args))"
        "snd (launch_key (a_key args))" tr]
    show ?thesis
      unfolding f by (auto simp: launch_of_def Host_ptrs launch_keys read_write_same)
  next
    case (Device_ptrs di dout)
    obtain indata where di: "di = Device_accessible_ptr indata" by (cases di)
    obtain outdata where dout: "dout = Device_accessible_ptr outdata" by (cases dout)
    from env_run_device [OF queue idle, of H M "launch_width targs"
        Default_event indata outdata "a_inlen args" "a_n_batch args"
        "fst (launch_key (a_key args))"
        "snd (launch_key (a_key args))" tr]
    show ?thesis
      unfolding f by (auto simp: launch_of_def Device_ptrs di dout launch_keys read_write_same)
  qed
qed

lemma toy_digests:
  "hash_kernel toy_digest M n (key_bytes toy_world None)
     (read_bytes (host_mem toy_world) 16 6) 3 2 = [3, 16, 3, 19]"
  by (simp add: hash_kernel_def blocks_def read_bytes_def toy_digest_def toy_world_def
      key_bytes_def upt_conv_Cons)

lemma length_toy_digests: "length [3, 16, 3, 19 :: byte] = 4"
  by simp

lemma toy_same_input:
  "read_bytes (host_mem toy_world) 16 (unat (2 :: dword) * unat (3 :: dword)) =
   read_bytes (device_mem toy_world) 16 (unat (2 :: dword) * unat (3 :: dword))"
  by (simp add: toy_world_def)

lemma compute_sha3_host:
  "compute (env toy_digest) sha3 [Int_arg 256]
     \<lparr>a_q = 0, a_bufs = Host_ptrs 16 64, a_inlen = 3, a_n_batch = 2, a_key = None\<rparr> =
   Some (compute_host_outbit (env toy_digest) sha3 256 0 16 3 64 2)"
  by (simp add: compute_def resolve_def overloads_def viable_def template_ok_def key_ok_def
      int_range_def invoke_def)

lemma compute_sha3_device:
  "compute (env toy_digest) sha3 [Int_arg 256]
     \<lparr>a_q = 0, a_bufs = Device_ptrs (Device_accessible_ptr 16) (Device_accessible_ptr 64),
      a_inlen = 3, a_n_batch = 2, a_key = None\<rparr> =
   Some (compute_device_outbit (env toy_digest) sha3 256 0 (Device_accessible_ptr 16) 3
     (Device_accessible_ptr 64) 2)"
  by (simp add: compute_def resolve_def overloads_def viable_def template_ok_def key_ok_def
      int_range_def invoke_def)

lemma compute_md5_first_output:
  "compute (env toy_digest) md5 [] (host_args\<lparr>a_bufs := Host_ptrs 16 64\<rparr>) =
   Some (compute_host (env toy_digest) md5 0 16 3 64 2)"
  by (simp add: compute_def resolve_def overloads_def viable_def template_ok_def key_ok_def
      int_range_def invoke_def host_args_def)

lemma compute_md5_second_output:
  "compute (env toy_digest) md5 [] (host_args\<lparr>a_bufs := Host_ptrs 16 80\<rparr>) =
   Some (compute_host (env toy_digest) md5 0 16 3 80 2)"
  by (simp add: compute_def resolve_def overloads_def viable_def template_ok_def key_ok_def
      int_range_def invoke_def host_args_def)

lemma toy_digests_host_args:
  "[3, 16, 3, 19] =
   hash_kernel toy_digest md5 (launch_width [])
     (key_bytes toy_world (a_key host_args))
     (input_of toy_world (Host_ptrs 16 64) (unat (a_n_batch host_args) * unat (a_inlen host_args)))
     (unat (a_inlen host_args)) (unat (a_n_batch host_args))"
  by (simp add: host_args_def toy_digests)

lemma c_wait_env: "c_wait (env H) = env_wait H"
  by (simp add: env_def)

lemma launch_md5_device_args:
  "c_dispatch_hash (env toy_digest) md5 0 0 Default_event (Device_accessible_ptr 16)
     (Device_accessible_ptr 64) 3 2 nullptr 0 toy_world =
   (Inr (Event 0), submit (Device_hash md5 0 16 64 3 2 []) toy_world)"
  by (simp add: env_def read_bytes_def)

lemma launch_blake2b_keyed_args:
  "c_hash_with_data_copy (env toy_digest) blake2b 512
     \<lparr>r_q = 0, r_indata = 16, r_outdata = 64, r_n_batch = 2, r_inlen = 3\<rparr> 8 4 toy_world =
   (Inr \<lparr>dev_e = Event 0\<rparr>,
    submit (Staged_hash blake2b 512 16 64 3 2 (read_bytes (host_mem toy_world) 8 4)) toy_world)"
  by (simp add: env_def env_hash_with_data_copy_def)

lemma compute_sha3_type_argument:
  "compute (env toy_digest) sha3 [Type_arg] host_args =
   Some (compute_host (env toy_digest) sha3 0 16 3 64 2)"
  by (simp add: compute_def resolve_def overloads_def viable_def template_ok_def key_ok_def
      invoke_def host_args_def)

lemma compute_md5_width_key_type_argument:
  "compute (env toy_digest) md5 [Int_arg 256, Type_arg] keyed_args =
   Some (compute_host_keyed (env toy_digest) md5 256 0 16 3 64 2 8 4)"
  by (simp add: compute_def resolve_def overloads_def viable_def template_ok_def key_ok_def
      int_range_def invoke_def keyed_args_def)


section \<open>The claims\<close>

text \<open>
  C1, as amended. Among the calls that do not spell out the defaulted type parameter of a
  template header: for every tag and each of the two memory-residency modes exactly one
  call shape has a candidate, and exactly one; a call compiles exactly when it lies in the
  legal matrix, its width is a value of \<open>int\<close> and its key converts to the key parameter;
  giving an output width for \<open>md2\<close>, \<open>md5\<close>, \<open>sha1\<close> or \<open>sha256\<close>, leaving it out for
  \<open>sha3\<close>, \<open>keccak\<close> or \<open>blake2b\<close>, or giving key arguments for a tag other than
  \<open>blake2b\<close> does not compile (the result is \<open>None\<close>, not a computation that reports an
  error when run). No call, with or without a type argument, has two candidates.
\<close>

theorem compute_resolution_matrix:
  assumes plain: "no_type_argument targs"
  shows "length (resolutions M res) = 1 \<and>
   ((compute P M targs args \<noteq> None) =
      (spec_legal_call M targs args \<and> width_fits targs \<and> key_fits args)) \<and>
   length (resolve M targs args) \<le> 1 \<and>
   (M \<in> {md2, md5, sha1, sha256} \<longrightarrow> compute P M [Int_arg n] args = None) \<and>
   (M \<in> {sha3, keccak, blake2b} \<longrightarrow> compute P M [] args = None) \<and>
   (M \<noteq> blake2b \<longrightarrow> a_key args \<noteq> None \<longrightarrow> compute P M targs args = None)"
proof -
  have one: "length (resolutions M res) = 1"
    by (cases M; cases res)
       (simp_all add: resolutions_def call_shapes_def shape_targs_def shape_key_def
          overloads_def viable_def template_ok_simps key_ok_def int_range_def)
  have iff: "(compute P M targs args \<noteq> None) =
      (spec_legal_call M targs args \<and> width_fits targs \<and> key_fits args)"
  proof -
    have "(compute P M targs args \<noteq> None) = (resolve M targs args \<noteq> [])"
      by (simp add: compute_cases)
    also have "\<dots> = (spec_legal_call M targs args \<and> width_fits targs \<and> key_fits args)"
      using plain by (rule resolve_legal)
    finally show ?thesis .
  qed
  have unamb: "length (resolve M targs args) \<le> 1"
    by (simp add: resolve_eq)
  have fixed: "M \<in> {md2, md5, sha1, sha256} \<longrightarrow> compute P M [Int_arg n] args = None"
    by (auto simp: compute_fixed_width)
  have variable: "M \<in> {sha3, keccak, blake2b} \<longrightarrow> compute P M [] args = None"
    by (auto simp: compute_variable_no_width)
  have keyed: "M \<noteq> blake2b \<longrightarrow> a_key args \<noteq> None \<longrightarrow> compute P M targs args = None"
    using iff by (cases M) (auto simp: spec_legal_call_def)
  from one iff unamb fixed variable keyed show ?thesis
    by (intro conjI)
qed

theorem compute_resolution_matrix_witness:
  "no_type_argument [] \<and> no_type_argument [Int_arg 256] \<and>
   md5 \<in> {md2, md5, sha1, sha256} \<and> compute (env toy_digest) md5 [Int_arg 256] host_args = None \<and>
   sha3 \<in> {sha3, keccak, blake2b} \<and> compute (env toy_digest) sha3 [] host_args = None \<and>
   keccak \<noteq> blake2b \<and> a_key keyed_args \<noteq> None \<and>
   compute (env toy_digest) keccak [Int_arg 256] keyed_args = None \<and>
   length (resolutions md5 Host) = 1 \<and>
   compute (env toy_digest) md5 [] host_args \<noteq> None"
proof -
  have plain: "no_type_argument []" "no_type_argument [Int_arg 256]"
    by (simp_all add: no_type_argument_simps)
  from compute_resolution_matrix [OF plain(1), of md5 Host "env toy_digest" host_args 256]
    compute_resolution_matrix [OF plain(1), of sha3 Host "env toy_digest" host_args 256]
    compute_resolution_matrix [OF plain(2), of keccak Host "env toy_digest" keyed_args 256]
    plain
  show ?thesis
    by (simp add: spec_legal_call_def width_fits_def key_fits_def host_args_def keyed_args_def)
qed

text \<open>
  The claim as it was stated fails at two calls that spell the type parameter out:
  \<open>compute<sha3, void>(q, in, 3, out, 2)\<close> leaves the width out for \<open>sha3\<close> and selects the
  overload of line 26; \<open>compute<md5, 256, void>(q, in, 3, out, 2, key, 4)\<close> gives a width
  and a key for \<open>md5\<close> and selects the overload of line 56.
\<close>

theorem compute_resolution_matrix_counterexample:
  "compute (env toy_digest) sha3 [Type_arg] host_args =
     Some (compute_host (env toy_digest) sha3 0 16 3 64 2) \<and>
   \<not> spec_legal_call sha3 [Type_arg] host_args \<and>
   compute (env toy_digest) md5 [Int_arg 256, Type_arg] keyed_args =
     Some (compute_host_keyed (env toy_digest) md5 256 0 16 3 64 2 8 4) \<and>
   \<not> spec_legal_call md5 [Int_arg 256, Type_arg] keyed_args"
  by (simp add: compute_sha3_type_argument compute_md5_width_key_type_argument
      spec_legal_call_def width_only_iff)

text \<open>
  C2. A call that compiles makes one launch. When the launch returns a handle, the call
  makes exactly one \<open>wait\<close>, on the event of that handle, and what the call returns (the
  result and the world) is what that \<open>wait\<close> returned: the call returns normally only
  after the \<open>wait\<close> has, so whatever a returning \<open>wait\<close> guarantees of its event
  (\<open>finished\<close>: the device work, and on the host path the transfer back, are complete)
  holds of this call's own handle when the call returns. When the launch throws there is no
  handle, and no \<open>wait\<close>.
\<close>

theorem compute_waits_on_own_handle:
  assumes blocking: "\<forall>e w w'. c_wait P e w = (Inr (), w') \<longrightarrow> finished w' e"
    and compiles: "compute P M targs args = Some f"
    and run: "f (w, tr) = (r, (w', tr'))"
  shows "\<exists>D rest. tr' = tr @ D # rest \<and> \<not> is_wait D \<and>
           (case returned P D w of
              (Inl e, w1) \<Rightarrow> rest = [] \<and> r = Inl e
            | (Inr h, w1) \<Rightarrow>
                rest = [Wait h] \<and> c_wait P h w1 = (r, w') \<and> (r = Inr () \<longrightarrow> finished w' h))"
proof -
  let ?D = "launch_of M targs args"
  from compiles have f: "f = launch_then_wait P ?D"
    by (rule compute_SomeD)
  from run have log: "case returned P ?D w of
           (Inl e, w1) \<Rightarrow> tr' = tr @ [?D] \<and> r = Inl e \<and> w' = w1
         | (Inr h, w1) \<Rightarrow> tr' = tr @ [?D, Wait h] \<and> c_wait P h w1 = (r, w')"
    unfolding f by (rule launch_then_wait_log)
  show ?thesis
  proof (cases "returned P ?D w")
    case (Pair x w1)
    show ?thesis
    proof (cases x)
      case (Inl e)
      with Pair log launch_of_not_wait [of M targs args] show ?thesis
        by (intro exI [of _ ?D] exI [of _ "[]"]) simp
    next
      case (Inr h)
      with Pair log have tr': "tr' = tr @ [?D, Wait h]" and w: "c_wait P h w1 = (r, w')"
        by simp_all
      from w blocking have "r = Inr () \<longrightarrow> finished w' h"
        by blast
      with Pair Inr tr' w launch_of_not_wait [of M targs args] show ?thesis
        by (intro exI [of _ ?D] exI [of _ "[Wait h]"]) simp
    qed
  qed
qed

theorem compute_waits_on_own_handle_witness:
  "compute (env toy_digest) md5 [] host_args =
     Some (compute_host (env toy_digest) md5 0 16 3 64 2) \<and>
   compute_host (env toy_digest) md5 0 16 3 64 2 (toy_world, []) =
     (Inr (),
      (snd (env_wait toy_digest (Event 0) (submit (Staged_hash md5 0 16 64 3 2 []) toy_world)),
       [Hash_with_data_copy md5 0
          \<lparr>r_q = 0, r_indata = 16, r_outdata = 64, r_n_batch = 2, r_inlen = 3\<rparr> nullptr 0,
        Wait (Event 0)])) \<and>
   complete (snd (env_wait toy_digest (Event 0) (submit (Staged_hash md5 0 16 64 3 2 []) toy_world)))
     (Event 0)"
proof -
  let ?w1 = "submit (Staged_hash md5 0 16 64 3 2 []) toy_world"
  have launch: "c_hash_with_data_copy (env toy_digest) md5 0
      \<lparr>r_q = 0, r_indata = 16, r_outdata = 64, r_n_batch = 2, r_inlen = 3\<rparr> nullptr 0 toy_world =
      (Inr \<lparr>dev_e = Event 0\<rparr>, ?w1)"
    by (simp add: env_def env_hash_with_data_copy_def read_bytes_def)
  from compute_waits_on_own_handle [OF env_wait_blocks compute_md5_host_args run_md5_host_args]
  have "complete (snd (env_wait toy_digest (Event 0) ?w1)) (Event 0)"
    by (elim exE conjE) (simp add: launch)
  with compute_md5_host_args run_md5_host_args show ?thesis by (intro conjI)
qed

text \<open>
  C3. A call on host pointers invokes \<open>hash_with_data_copy\<close>, a call on device pointers
  invokes \<open>dispatch_hash\<close>, on the caller's own two pointers: what the call returns is what
  that primitive, called on these arguments in the world of the call, and the \<open>wait\<close> on
  its event return. Besides this launch the call makes only waits (no copy, no staging).
  Which primitive is called depends on the kind of the buffers alone, whatever the world
  and the log are.
\<close>

theorem compute_routes_by_residency:
  assumes compiles: "compute P M targs args = Some f"
    and run: "f (w, tr) = (r, (w', tr'))"
  shows "\<exists>D rest. tr' = tr @ D # rest \<and> list_all is_wait rest \<and>
           call_buffers D = Some (a_bufs args) \<and>
           (case a_bufs args of
              Host_ptrs indata outdata \<Rightarrow> is_hash_with_data_copy D
            | Device_ptrs indata outdata \<Rightarrow> is_dispatch_hash D) \<and>
           (case returned P D w of
              (Inl e, w1) \<Rightarrow> rest = [] \<and> r = Inl e \<and> w' = w1
            | (Inr h, w1) \<Rightarrow> rest = [Wait h] \<and> c_wait P h w1 = (r, w'))"
proof -
  let ?D = "launch_of M targs args"
  have "\<exists>rest. tr' = tr @ ?D # rest \<and> list_all is_wait rest \<and>
           (case returned P ?D w of
              (Inl e, w1) \<Rightarrow> rest = [] \<and> r = Inl e \<and> w' = w1
            | (Inr h, w1) \<Rightarrow> rest = [Wait h] \<and> c_wait P h w1 = (r, w'))"
    using compiles run by (rule compute_run)
  then obtain rest where rest: "tr' = tr @ ?D # rest" "list_all is_wait rest"
    and link: "case returned P ?D w of
              (Inl e, w1) \<Rightarrow> rest = [] \<and> r = Inl e \<and> w' = w1
            | (Inr h, w1) \<Rightarrow> rest = [Wait h] \<and> c_wait P h w1 = (r, w')"
    by (elim exE conjE) (rule that; assumption)
  have bufs: "call_buffers ?D = Some (a_bufs args)"
    by (cases "a_bufs args") (simp_all add: launch_of_def)
  have kind: "case a_bufs args of
              Host_ptrs indata outdata \<Rightarrow> is_hash_with_data_copy ?D
            | Device_ptrs indata outdata \<Rightarrow> is_dispatch_hash ?D"
    by (cases "a_bufs args") (simp_all add: launch_of_def)
  from rest bufs kind link show ?thesis
    by (intro exI [of _ ?D] exI [of _ rest] conjI)
qed

theorem compute_routes_by_residency_witness:
  "compute (env toy_digest) md5 [] device_args =
     Some (compute_device (env toy_digest) md5 0 (Device_accessible_ptr 16) 3
       (Device_accessible_ptr 64) 2) \<and>
   compute_device (env toy_digest) md5 0 (Device_accessible_ptr 16) 3 (Device_accessible_ptr 64) 2
     (toy_world, []) =
     (Inr (),
      (snd (env_wait toy_digest (Event 0) (submit (Device_hash md5 0 16 64 3 2 []) toy_world)),
       [Dispatch_hash md5 0 0 Default_event (Device_accessible_ptr 16) (Device_accessible_ptr 64)
          3 2 nullptr 0,
        Wait (Event 0)])) \<and>
   (\<exists>D rest.
      [Dispatch_hash md5 0 0 Default_event (Device_accessible_ptr 16) (Device_accessible_ptr 64)
         3 2 nullptr 0,
       Wait (Event 0)] = D # rest \<and>
      list_all is_wait rest \<and>
      call_buffers D = Some (Device_ptrs (Device_accessible_ptr 16) (Device_accessible_ptr 64)) \<and>
      is_dispatch_hash D \<and>
      returned (env toy_digest) D toy_world =
        (Inr (Event 0), submit (Device_hash md5 0 16 64 3 2 []) toy_world) \<and>
      rest = [Wait (Event 0)] \<and>
      c_wait (env toy_digest) (Event 0) (submit (Device_hash md5 0 16 64 3 2 []) toy_world) =
        (Inr (),
         snd (env_wait toy_digest (Event 0) (submit (Device_hash md5 0 16 64 3 2 []) toy_world))))"
proof -
  from compute_routes_by_residency [OF compute_md5_device_args run_md5_device_args]
  have "\<exists>D rest.
      [Dispatch_hash md5 0 0 Default_event (Device_accessible_ptr 16) (Device_accessible_ptr 64)
         3 2 nullptr 0,
       Wait (Event 0)] = D # rest \<and>
      list_all is_wait rest \<and>
      call_buffers D = Some (Device_ptrs (Device_accessible_ptr 16) (Device_accessible_ptr 64)) \<and>
      is_dispatch_hash D \<and>
      returned (env toy_digest) D toy_world =
        (Inr (Event 0), submit (Device_hash md5 0 16 64 3 2 []) toy_world) \<and>
      rest = [Wait (Event 0)] \<and>
      c_wait (env toy_digest) (Event 0) (submit (Device_hash md5 0 16 64 3 2 []) toy_world) =
        (Inr (),
         snd (env_wait toy_digest (Event 0) (submit (Device_hash md5 0 16 64 3 2 []) toy_world)))"
    by (clarsimp simp: device_args_def launch_md5_device_args c_wait_env)
  with compute_md5_device_args run_md5_device_args show ?thesis by (intro conjI)
qed

text \<open>
  C4. The launch primitive of a call is invoked with the caller's block length, batch
  count and, when the call has key arguments, key pointer and key length, as they were
  given: what the call returns is what the primitive, called on these arguments in the
  world of the call, and the \<open>wait\<close> on its event return; it is the only launch of the
  call.
\<close>

theorem compute_forwards_sizes_and_key:
  assumes compiles: "compute P M targs args = Some f"
    and run: "f (w, tr) = (r, (w', tr'))"
  shows "\<exists>D rest. tr' = tr @ D # rest \<and> list_all is_wait rest \<and>
           call_inlen D = Some (a_inlen args) \<and>
           call_n_batch D = Some (a_n_batch args) \<and>
           (\<forall>k keylen. a_key args = Some (k, keylen) \<longrightarrow>
              call_key D = Some (key_address k, keylen)) \<and>
           (case returned P D w of
              (Inl e, w1) \<Rightarrow> rest = [] \<and> r = Inl e \<and> w' = w1
            | (Inr h, w1) \<Rightarrow> rest = [Wait h] \<and> c_wait P h w1 = (r, w'))"
proof -
  let ?D = "launch_of M targs args"
  have "\<exists>rest. tr' = tr @ ?D # rest \<and> list_all is_wait rest \<and>
           (case returned P ?D w of
              (Inl e, w1) \<Rightarrow> rest = [] \<and> r = Inl e \<and> w' = w1
            | (Inr h, w1) \<Rightarrow> rest = [Wait h] \<and> c_wait P h w1 = (r, w'))"
    using compiles run by (rule compute_run)
  then obtain rest where rest: "tr' = tr @ ?D # rest" "list_all is_wait rest"
    and link: "case returned P ?D w of
              (Inl e, w1) \<Rightarrow> rest = [] \<and> r = Inl e \<and> w' = w1
            | (Inr h, w1) \<Rightarrow> rest = [Wait h] \<and> c_wait P h w1 = (r, w')"
    by (elim exE conjE) (rule that; assumption)
  have inlen: "call_inlen ?D = Some (a_inlen args)"
    by (cases "a_bufs args") (simp_all add: launch_of_def)
  have n_batch: "call_n_batch ?D = Some (a_n_batch args)"
    by (cases "a_bufs args") (simp_all add: launch_of_def)
  have key: "\<forall>k keylen. a_key args = Some (k, keylen) \<longrightarrow>
      call_key ?D = Some (key_address k, keylen)"
    by (cases "a_bufs args") (simp_all add: launch_of_def launch_key_def)
  from rest inlen n_batch key link show ?thesis
    by (intro exI [of _ ?D] exI [of _ rest] conjI)
qed

theorem compute_forwards_sizes_and_key_witness:
  "compute (env toy_digest) blake2b [Int_arg 512] keyed_args =
     Some (compute_host_keyed (env toy_digest) blake2b 512 0 16 3 64 2 8 4) \<and>
   compute_host_keyed (env toy_digest) blake2b 512 0 16 3 64 2 8 4 (toy_world, []) =
     (Inr (),
      (snd (env_wait toy_digest (Event 0)
         (submit (Staged_hash blake2b 512 16 64 3 2 (read_bytes (host_mem toy_world) 8 4))
            toy_world)),
       [Hash_with_data_copy blake2b 512
          \<lparr>r_q = 0, r_indata = 16, r_outdata = 64, r_n_batch = 2, r_inlen = 3\<rparr> 8 4,
        Wait (Event 0)])) \<and>
   (\<exists>D rest.
      [Hash_with_data_copy blake2b 512
         \<lparr>r_q = 0, r_indata = 16, r_outdata = 64, r_n_batch = 2, r_inlen = 3\<rparr> 8 4,
       Wait (Event 0)] = D # rest \<and>
      list_all is_wait rest \<and> call_inlen D = Some 3 \<and> call_n_batch D = Some 2 \<and>
      call_key D = Some (8, 4) \<and>
      returned (env toy_digest) D toy_world =
        (Inr (Event 0),
         submit (Staged_hash blake2b 512 16 64 3 2 (read_bytes (host_mem toy_world) 8 4))
           toy_world) \<and>
      rest = [Wait (Event 0)])"
proof -
  from compute_forwards_sizes_and_key [OF compute_blake2b_keyed_args run_blake2b_keyed_args]
  have "\<exists>D rest.
      [Hash_with_data_copy blake2b 512
         \<lparr>r_q = 0, r_indata = 16, r_outdata = 64, r_n_batch = 2, r_inlen = 3\<rparr> 8 4,
       Wait (Event 0)] = D # rest \<and>
      list_all is_wait rest \<and> call_inlen D = Some 3 \<and> call_n_batch D = Some 2 \<and>
      call_key D = Some (8, 4) \<and>
      returned (env toy_digest) D toy_world =
        (Inr (Event 0),
         submit (Staged_hash blake2b 512 16 64 3 2 (read_bytes (host_mem toy_world) 8 4))
           toy_world) \<and>
      rest = [Wait (Event 0)]"
    by (clarsimp simp: keyed_args_def launch_blake2b_keyed_args c_wait_env)
  with compute_blake2b_keyed_args run_blake2b_keyed_args show ?thesis by (intro conjI)
qed

text \<open>
  C5. In the environment modelled from the spec, with a valid queue and an idle device: a
  call with an output width (so a call on \<open>sha3\<close>, \<open>keccak\<close> or \<open>blake2b\<close>) on host
  buffers and the same call on device buffers holding the same input bytes both return
  normally, and leave the same bytes, the digests of the batch, in their output buffers.
\<close>

theorem host_and_device_digests_agree:
  assumes host: "compute (env H) M [Int_arg n]
        \<lparr>a_q = q, a_bufs = Host_ptrs hin hout, a_inlen = inlen, a_n_batch = n_batch,
         a_key = key\<rparr> = Some fh"
    and device: "compute (env H) M [Int_arg n]
        \<lparr>a_q = q, a_bufs = Device_ptrs (Device_accessible_ptr din) (Device_accessible_ptr dout),
         a_inlen = inlen, a_n_batch = n_batch, a_key = key\<rparr> = Some fd"
    and queue: "q \<in> set (queues w)"
    and idle: "pending w = []"
    and same_input: "read_bytes (host_mem w) hin (unat n_batch * unat inlen) =
        read_bytes (device_mem w) din (unat n_batch * unat inlen)"
  shows "(M = sha3 \<or> M = keccak \<or> M = blake2b) \<and>
         (\<exists>wh trh wd trd digests.
            fh (w, tr) = (Inr (), (wh, trh)) \<and> fd (w, tr) = (Inr (), (wd, trd)) \<and>
            digests = hash_kernel H M n (key_bytes w key)
              (read_bytes (host_mem w) hin (unat n_batch * unat inlen)) (unat inlen) (unat n_batch) \<and>
            read_bytes (host_mem wh) hout (length digests) = digests \<and>
            read_bytes (device_mem wd) dout (length digests) = digests)"
proof -
  let ?hargs = "\<lparr>a_q = q, a_bufs = Host_ptrs hin hout, a_inlen = inlen, a_n_batch = n_batch,
         a_key = key\<rparr>"
  let ?dargs = "\<lparr>a_q = q, a_bufs = Device_ptrs (Device_accessible_ptr din) (Device_accessible_ptr dout),
         a_inlen = inlen, a_n_batch = n_batch, a_key = key\<rparr>"
  let ?digests = "hash_kernel H M n (key_bytes w key)
              (read_bytes (host_mem w) hin (unat n_batch * unat inlen)) (unat inlen) (unat n_batch)"
  from host have "resolve M [Int_arg n] ?hargs \<noteq> []"
    by (rule compute_SomeD)
  then have "spec_legal_call M [Int_arg n] ?hargs"
    by (simp add: resolve_legal no_type_argument_simps)
  then have tag: "M = sha3 \<or> M = keccak \<or> M = blake2b"
    by (cases M) (simp_all add: spec_legal_call_def)
  from env_run [OF host, of w tr] queue idle
  obtain wh trh where h: "fh (w, tr) = (Inr (), (wh, trh))"
    "read_bytes (host_mem wh) hout (length ?digests) = ?digests"
    by auto
  from env_run [OF device, of w tr] queue idle same_input
  obtain wd trd where d: "fd (w, tr) = (Inr (), (wd, trd))"
    "read_bytes (device_mem wd) dout (length ?digests) = ?digests"
    by auto
  from tag h d show ?thesis by blast
qed

theorem host_and_device_digests_agree_witness:
  "compute (env toy_digest) sha3 [Int_arg 256]
     \<lparr>a_q = 0, a_bufs = Host_ptrs 16 64, a_inlen = 3, a_n_batch = 2, a_key = None\<rparr> =
     Some (compute_host_outbit (env toy_digest) sha3 256 0 16 3 64 2) \<and>
   compute (env toy_digest) sha3 [Int_arg 256]
     \<lparr>a_q = 0, a_bufs = Device_ptrs (Device_accessible_ptr 16) (Device_accessible_ptr 64),
      a_inlen = 3, a_n_batch = 2, a_key = None\<rparr> =
     Some (compute_device_outbit (env toy_digest) sha3 256 0 (Device_accessible_ptr 16) 3
       (Device_accessible_ptr 64) 2) \<and>
   0 \<in> set (queues toy_world) \<and> pending toy_world = [] \<and>
   read_bytes (host_mem toy_world) 16 (unat (2 :: dword) * unat (3 :: dword)) =
     read_bytes (device_mem toy_world) 16 (unat (2 :: dword) * unat (3 :: dword)) \<and>
   (\<exists>wh trh wd trd.
      compute_host_outbit (env toy_digest) sha3 256 0 16 3 64 2 (toy_world, []) =
        (Inr (), (wh, trh)) \<and>
      compute_device_outbit (env toy_digest) sha3 256 0 (Device_accessible_ptr 16) 3
        (Device_accessible_ptr 64) 2 (toy_world, []) = (Inr (), (wd, trd)) \<and>
      read_bytes (host_mem wh) 64 4 = [3, 16, 3, 19] \<and>
      read_bytes (device_mem wd) 64 4 = [3, 16, 3, 19])"
proof -
  have queue: "0 \<in> set (queues toy_world)" and idle: "pending toy_world = []"
    by simp_all
  from host_and_device_digests_agree [OF compute_sha3_host compute_sha3_device queue idle
      toy_same_input, of "[]"]
  have "\<exists>wh trh wd trd.
      compute_host_outbit (env toy_digest) sha3 256 0 16 3 64 2 (toy_world, []) =
        (Inr (), (wh, trh)) \<and>
      compute_device_outbit (env toy_digest) sha3 256 0 (Device_accessible_ptr 16) 3
        (Device_accessible_ptr 64) 2 (toy_world, []) = (Inr (), (wd, trd)) \<and>
      read_bytes (host_mem wh) 64 4 = [3, 16, 3, 19] \<and>
      read_bytes (device_mem wd) 64 4 = [3, 16, 3, 19]"
    by (simp add: toy_digests length_toy_digests del: list.size)
  with compute_sha3_host compute_sha3_device queue idle toy_same_input show ?thesis
    by (intro conjI)
qed






text \<open>
  C8. In the environment modelled from the spec, with a valid queue and an idle device:
  two calls of \<open>compute\<close> with the same tag, the same arguments and the same input
  buffer, one after the other, on two output buffers that overlap neither each other nor
  the input (nor the key bytes, when the outputs are in host memory), both return normally
  and leave the same bytes, the digests of the batch, in both output buffers.
\<close>

theorem compute_twice_same_output:
  assumes first: "compute (env H) M targs (args\<lparr>a_bufs := b1\<rparr>) = Some f1"
    and second: "compute (env H) M targs (args\<lparr>a_bufs := b2\<rparr>) = Some f2"
    and same_residency: "residency_of b1 = residency_of b2"
    and same_input: "in_ptr b1 = in_ptr b2"
    and queue: "a_q args \<in> set (queues w)"
    and idle: "pending w = []"
    and digests: "digests =
        hash_kernel H M (launch_width targs) (key_bytes w (a_key args))
          (input_of w b1 (unat (a_n_batch args) * unat (a_inlen args)))
          (unat (a_inlen args)) (unat (a_n_batch args))"
    and separate_outputs: "disjoint (out_ptr b1) (length digests) (out_ptr b2) (length digests)"
    and separate_input: "disjoint (out_ptr b1) (length digests) (in_ptr b1)
        (unat (a_n_batch args) * unat (a_inlen args))"
    and separate_key: "key_untouched b1 (length digests) (a_key args)"
  shows "\<exists>w1 tr1 w2 tr2.
           f1 (w, tr) = (Inr (), (w1, tr1)) \<and> f2 (w1, tr1) = (Inr (), (w2, tr2)) \<and>
           output_of w2 b1 (length digests) = digests \<and>
           output_of w2 b2 (length digests) = digests"
proof -
  let ?n = "launch_width targs"
  let ?len = "unat (a_n_batch args) * unat (a_inlen args)"
  from env_run [OF first, of w tr] queue idle digests
  obtain w1 tr1 where run1: "f1 (w, tr) = (Inr (), (w1, tr1))"
    and hmem1: "host_mem w1 =
        (if residency_of b1 = Host then write_bytes (host_mem w) (out_ptr b1) digests
         else host_mem w)"
    and dmem1: "device_mem w1 =
        (if residency_of b1 = Device then write_bytes (device_mem w) (out_ptr b1) digests
         else device_mem w)"
    and q1: "queues w1 = queues w" and idle1: "pending w1 = []"
    by auto
  have input1: "input_of w1 b2 ?len = input_of w b1 ?len"
  proof (cases b1)
    case (Host_ptrs i1 o1)
    with same_residency obtain i2 o2 where b2: "b2 = Host_ptrs i2 o2"
      by (cases b2) simp_all
    from Host_ptrs b2 same_input hmem1 dmem1 separate_input show ?thesis
      by (simp add: read_write_disjoint)
  next
    case (Device_ptrs i1 o1)
    with same_residency obtain i2 o2 where b2: "b2 = Device_ptrs i2 o2"
      by (cases b2) simp_all
    obtain a1 where i1: "i1 = Device_accessible_ptr a1" by (cases i1)
    obtain a2 where i2: "i2 = Device_accessible_ptr a2" by (cases i2)
    obtain c1 where o1: "o1 = Device_accessible_ptr c1" by (cases o1)
    from Device_ptrs b2 i1 i2 o1 same_input hmem1 dmem1 separate_input show ?thesis
      by (simp add: read_write_disjoint)
  qed
  have key1: "key_bytes w1 (a_key args) = key_bytes w (a_key args)"
  proof (cases b1)
    case (Host_ptrs i1 o1)
    with hmem1 dmem1 separate_key show ?thesis
      by (cases "a_key args")
         (auto simp: key_bytes_def key_untouched_def read_write_disjoint)
  next
    case (Device_ptrs i1 o1)
    with hmem1 show ?thesis
      by (cases "a_key args") (auto simp: key_bytes_def)
  qed
  from q1 queue have queue1: "a_q (args\<lparr>a_bufs := b2\<rparr>) \<in> set (queues w1)"
    by simp
  from env_run [OF second queue1 idle1, of tr1] input1 key1 digests
  obtain w2 tr2 where run2: "f2 (w1, tr1) = (Inr (), (w2, tr2))"
    and out2: "output_of w2 b2 (length digests) = digests"
    and hmem2: "host_mem w2 =
        (if residency_of b2 = Host then write_bytes (host_mem w1) (out_ptr b2) digests
         else host_mem w1)"
    and dmem2: "device_mem w2 =
        (if residency_of b2 = Device then write_bytes (device_mem w1) (out_ptr b2) digests
         else device_mem w1)"
    by auto
  have out1: "output_of w2 b1 (length digests) = digests"
  proof (cases b1)
    case (Host_ptrs i1 o1)
    with same_residency obtain i2 o2 where b2: "b2 = Host_ptrs i2 o2"
      by (cases b2) simp_all
    from separate_outputs Host_ptrs b2 have "disjoint o2 (length digests) o1 (length digests)"
      by (simp add: disjoint_sym)
    with Host_ptrs b2 hmem1 hmem2 show ?thesis
      by (simp add: read_write_disjoint read_write_same)
  next
    case (Device_ptrs i1 o1)
    with same_residency obtain i2 o2 where b2: "b2 = Device_ptrs i2 o2"
      by (cases b2) simp_all
    obtain c1 where o1: "o1 = Device_accessible_ptr c1" by (cases o1)
    obtain c2 where o2: "o2 = Device_accessible_ptr c2" by (cases o2)
    from separate_outputs Device_ptrs b2 o1 o2
    have "disjoint c2 (length digests) c1 (length digests)"
      by (simp add: disjoint_sym)
    with Device_ptrs b2 o1 o2 dmem1 dmem2 show ?thesis
      by (simp add: read_write_disjoint read_write_same)
  qed
  from run1 run2 out1 out2 show ?thesis by blast
qed

theorem compute_twice_same_output_witness:
  "compute (env toy_digest) md5 [] (host_args\<lparr>a_bufs := Host_ptrs 16 64\<rparr>) =
     Some (compute_host (env toy_digest) md5 0 16 3 64 2) \<and>
   compute (env toy_digest) md5 [] (host_args\<lparr>a_bufs := Host_ptrs 16 80\<rparr>) =
     Some (compute_host (env toy_digest) md5 0 16 3 80 2) \<and>
   a_q host_args \<in> set (queues toy_world) \<and> pending toy_world = [] \<and>
   disjoint 64 4 80 4 \<and> disjoint 64 4 16 6 \<and>
   (\<exists>w1 tr1 w2 tr2.
      compute_host (env toy_digest) md5 0 16 3 64 2 (toy_world, []) = (Inr (), (w1, tr1)) \<and>
      compute_host (env toy_digest) md5 0 16 3 80 2 (w1, tr1) = (Inr (), (w2, tr2)) \<and>
      output_of w2 (Host_ptrs 16 64) 4 = [3, 16, 3, 19] \<and>
      output_of w2 (Host_ptrs 16 80) 4 = [3, 16, 3, 19])"
proof -
  have queue: "a_q host_args \<in> set (queues toy_world)" and idle: "pending toy_world = []"
    by (simp_all add: host_args_def)
  have separate: "disjoint 64 4 80 4" "disjoint 64 4 16 6"
    by (simp_all add: disjoint_def)
  have "\<exists>w1 tr1 w2 tr2.
      compute_host (env toy_digest) md5 0 16 3 64 2 (toy_world, []) = (Inr (), (w1, tr1)) \<and>
      compute_host (env toy_digest) md5 0 16 3 80 2 (w1, tr1) = (Inr (), (w2, tr2)) \<and>
      output_of w2 (Host_ptrs 16 64) (length [3, 16, 3, 19 :: byte]) = [3, 16, 3, 19] \<and>
      output_of w2 (Host_ptrs 16 80) (length [3, 16, 3, 19 :: byte]) = [3, 16, 3, 19]"
  proof (rule compute_twice_same_output [OF compute_md5_first_output compute_md5_second_output
        _ _ queue idle toy_digests_host_args])
    show "residency_of (Host_ptrs 16 64) = residency_of (Host_ptrs 16 80)" by simp
    show "in_ptr (Host_ptrs 16 64) = in_ptr (Host_ptrs 16 80)" by simp
    show "disjoint (out_ptr (Host_ptrs 16 64)) (length [3, 16, 3, 19 :: byte])
        (out_ptr (Host_ptrs 16 80)) (length [3, 16, 3, 19 :: byte])"
      by (simp add: disjoint_def)
    show "disjoint (out_ptr (Host_ptrs 16 64)) (length [3, 16, 3, 19 :: byte])
        (in_ptr (Host_ptrs 16 64)) (unat (a_n_batch host_args) * unat (a_inlen host_args))"
      by (simp add: disjoint_def host_args_def)
    show "key_untouched (Host_ptrs 16 64) (length [3, 16, 3, 19 :: byte]) (a_key host_args)"
      by (simp add: key_untouched_def host_args_def)
  qed
  then have "\<exists>w1 tr1 w2 tr2.
      compute_host (env toy_digest) md5 0 16 3 64 2 (toy_world, []) = (Inr (), (w1, tr1)) \<and>
      compute_host (env toy_digest) md5 0 16 3 80 2 (w1, tr1) = (Inr (), (w2, tr2)) \<and>
      output_of w2 (Host_ptrs 16 64) 4 = [3, 16, 3, 19] \<and>
      output_of w2 (Host_ptrs 16 80) 4 = [3, 16, 3, 19]"
    by (simp add: length_toy_digests del: list.size)
  with compute_md5_first_output compute_md5_second_output queue idle separate show ?thesis
    by (intro conjI)
qed

text \<open>
  C9. Whatever the pointers, the block length and the batch count are, a call that
  compiles hands them to the launch primitive as given; an error the caller sees was thrown
  by the launch or by the \<open>wait\<close>, the facade reports none of its own.
\<close>

theorem compute_validates_nothing:
  assumes compiles: "compute P M targs args = Some f"
    and run: "f (w, tr) = (r, (w', tr'))"
  shows "\<exists>D rest. tr' = tr @ D # rest \<and>
           call_buffers D = Some (a_bufs args) \<and>
           call_inlen D = Some (a_inlen args) \<and>
           call_n_batch D = Some (a_n_batch args) \<and>
           (\<forall>e. r = Inl e \<longrightarrow>
              returned P D w = (Inl e, w') \<or>
              (\<exists>h w1. returned P D w = (Inr h, w1) \<and> c_wait P h w1 = (Inl e, w')))"
proof -
  let ?D = "launch_of M targs args"
  from compiles have f: "f = launch_then_wait P ?D"
    by (rule compute_SomeD)
  from run have log: "case returned P ?D w of
           (Inl e, w1) \<Rightarrow> tr' = tr @ [?D] \<and> r = Inl e \<and> w' = w1
         | (Inr h, w1) \<Rightarrow> tr' = tr @ [?D, Wait h] \<and> c_wait P h w1 = (r, w')"
    unfolding f by (rule launch_then_wait_log)
  have args: "call_buffers ?D = Some (a_bufs args) \<and> call_inlen ?D = Some (a_inlen args) \<and>
    call_n_batch ?D = Some (a_n_batch args)"
    by (cases "a_bufs args") (simp_all add: launch_of_def)
  obtain x w1 where ret: "returned P ?D w = (x, w1)"
    by (cases "returned P ?D w")
  show ?thesis
  proof (cases x)
    case (Inl e)
    with ret log args show ?thesis
      by (intro exI [of _ ?D] exI [of _ "[]"]) simp
  next
    case (Inr h)
    with ret log args show ?thesis
      by (intro exI [of _ ?D] exI [of _ "[Wait h]"]) auto
  qed
qed

theorem compute_validates_nothing_witness:
  "compute (env toy_digest) md5 [] bad_queue_args =
     Some (compute_host (env toy_digest) md5 5 16 3 64 2) \<and>
   compute_host (env toy_digest) md5 5 16 3 64 2 (toy_world, []) =
     (Inl (Exn 0),
      (toy_world,
       [Hash_with_data_copy md5 0
          \<lparr>r_q = 5, r_indata = 16, r_outdata = 64, r_n_batch = 2, r_inlen = 3\<rparr> nullptr 0])) \<and>
   (\<exists>D rest.
      [Hash_with_data_copy md5 0
         \<lparr>r_q = 5, r_indata = 16, r_outdata = 64, r_n_batch = 2, r_inlen = 3\<rparr> nullptr 0] =
        D # rest \<and>
      call_buffers D = Some (Host_ptrs 16 64) \<and> call_inlen D = Some 3 \<and>
      call_n_batch D = Some 2 \<and>
      returned (env toy_digest) D toy_world = (Inl (Exn 0), toy_world))"
proof -
  from compute_validates_nothing [OF compute_md5_bad_queue_args run_md5_bad_queue_args]
  have "\<exists>D rest.
      [Hash_with_data_copy md5 0
         \<lparr>r_q = 5, r_indata = 16, r_outdata = 64, r_n_batch = 2, r_inlen = 3\<rparr> nullptr 0] =
        D # rest \<and>
      call_buffers D = Some (Host_ptrs 16 64) \<and> call_inlen D = Some 3 \<and>
      call_n_batch D = Some 2 \<and>
      returned (env toy_digest) D toy_world = (Inl (Exn 0), toy_world)"
    by (auto simp: bad_queue_args_def env_def env_hash_with_data_copy_def)
  with compute_md5_bad_queue_args run_md5_bad_queue_args show ?thesis by (intro conjI)
qed

text \<open>
  C10. The launch primitive of a call is invoked with output width 0 when the call gives no
  integer template argument, with the null pointer and key length 0 when it gives no key
  arguments, and, on device pointers, with the default-constructed event as its dependency,
  whatever happened before: what the call returns is what the primitive, called on these
  arguments in the world of the call, and the \<open>wait\<close> on its event return.
\<close>

theorem compute_neutral_defaults:
  assumes compiles: "compute P M targs args = Some f"
    and run: "f (w, tr) = (r, (w', tr'))"
  shows "\<exists>D rest. tr' = tr @ D # rest \<and> list_all is_wait rest \<and>
           (\<not> has_width targs \<longrightarrow> call_n_outbit D = Some 0) \<and>
           (a_key args = None \<longrightarrow> call_key D = Some (nullptr, 0)) \<and>
           (residency_of (a_bufs args) = Device \<longrightarrow> call_dependency D = Some Default_event) \<and>
           (case returned P D w of
              (Inl e, w1) \<Rightarrow> rest = [] \<and> r = Inl e \<and> w' = w1
            | (Inr h, w1) \<Rightarrow> rest = [Wait h] \<and> c_wait P h w1 = (r, w'))"
proof -
  let ?D = "launch_of M targs args"
  have "\<exists>rest. tr' = tr @ ?D # rest \<and> list_all is_wait rest \<and>
           (case returned P ?D w of
              (Inl e, w1) \<Rightarrow> rest = [] \<and> r = Inl e \<and> w' = w1
            | (Inr h, w1) \<Rightarrow> rest = [Wait h] \<and> c_wait P h w1 = (r, w'))"
    using compiles run by (rule compute_run)
  then obtain rest where rest: "tr' = tr @ ?D # rest" "list_all is_wait rest"
    and link: "case returned P ?D w of
              (Inl e, w1) \<Rightarrow> rest = [] \<and> r = Inl e \<and> w' = w1
            | (Inr h, w1) \<Rightarrow> rest = [Wait h] \<and> c_wait P h w1 = (r, w')"
    by (elim exE conjE) (rule that; assumption)
  have outbit: "\<not> has_width targs \<longrightarrow> call_n_outbit ?D = Some 0"
    by (cases "a_bufs args")
       (auto simp: launch_of_def launch_width_def has_width_def split: list.splits targ.splits)
  have key: "a_key args = None \<longrightarrow> call_key ?D = Some (nullptr, 0)"
    by (cases "a_bufs args") (simp_all add: launch_of_def launch_key_def)
  have dep: "residency_of (a_bufs args) = Device \<longrightarrow> call_dependency ?D = Some Default_event"
    by (cases "a_bufs args") (simp_all add: launch_of_def)
  from rest outbit key dep link show ?thesis
    by (intro exI [of _ ?D] exI [of _ rest] conjI)
qed

theorem compute_neutral_defaults_witness:
  "compute (env toy_digest) md5 [] device_args =
     Some (compute_device (env toy_digest) md5 0 (Device_accessible_ptr 16) 3
       (Device_accessible_ptr 64) 2) \<and>
   compute_device (env toy_digest) md5 0 (Device_accessible_ptr 16) 3 (Device_accessible_ptr 64) 2
     (toy_world, []) =
     (Inr (),
      (snd (env_wait toy_digest (Event 0) (submit (Device_hash md5 0 16 64 3 2 []) toy_world)),
       [Dispatch_hash md5 0 0 Default_event (Device_accessible_ptr 16) (Device_accessible_ptr 64)
          3 2 nullptr 0,
        Wait (Event 0)])) \<and>
   \<not> has_width [] \<and> a_key device_args = None \<and> residency_of (a_bufs device_args) = Device \<and>
   (\<exists>D rest.
      [Dispatch_hash md5 0 0 Default_event (Device_accessible_ptr 16) (Device_accessible_ptr 64)
         3 2 nullptr 0,
       Wait (Event 0)] = D # rest \<and>
      list_all is_wait rest \<and> call_n_outbit D = Some 0 \<and> call_key D = Some (nullptr, 0) \<and>
      call_dependency D = Some Default_event \<and>
      returned (env toy_digest) D toy_world =
        (Inr (Event 0), submit (Device_hash md5 0 16 64 3 2 []) toy_world) \<and>
      rest = [Wait (Event 0)])"
proof -
  have args: "\<not> has_width []" "a_key device_args = None"
    "residency_of (a_bufs device_args) = Device"
    by (simp_all add: device_args_def has_width_def)
  from compute_neutral_defaults [OF compute_md5_device_args run_md5_device_args] args
  have "\<exists>D rest.
      [Dispatch_hash md5 0 0 Default_event (Device_accessible_ptr 16) (Device_accessible_ptr 64)
         3 2 nullptr 0,
       Wait (Event 0)] = D # rest \<and>
      list_all is_wait rest \<and> call_n_outbit D = Some 0 \<and> call_key D = Some (nullptr, 0) \<and>
      call_dependency D = Some Default_event \<and>
      returned (env toy_digest) D toy_world =
        (Inr (Event 0), submit (Device_hash md5 0 16 64 3 2 []) toy_world) \<and>
      rest = [Wait (Event 0)]"
    by (clarsimp simp: launch_md5_device_args c_wait_env)
  with compute_md5_device_args run_md5_device_args args show ?thesis by (intro conjI)
qed

end
